theory Spec2Isabelle
  imports Complex_Main "HOL-Library.Word"
begin

unbundle bit_operations_syntax

section \<open>Numbers and containers of \<open>pipeline.cpp\<close>\<close>

subsection \<open>The C++ \<open>double\<close>\<close>

text \<open>
  A \<open>double\<close> is a finite value, one of the two infinities, or NaN. The special values
  follow IEEE 754: NaN is absorbing, opposite infinities cancel to NaN, \<open>0 * inf\<close> is NaN,
  every ordered comparison with NaN is false. The sign of zero is not part of this model.
  The operations below compute on the finite values as exact reals; \<open>round_double\<close>
  further down is the rounding of binary64, and the interpolation of
  \<open>reltrans::apply_pipeline\<close>, whose stopping test compares a sum with a threshold, applies
  it after every operation. Elsewhere the operations are left exact.
\<close>

datatype double = Fin real | PInf | MInf | NaN

fun dneg :: "double \<Rightarrow> double" where
  "dneg (Fin a) = Fin (- a)"
| "dneg PInf = MInf"
| "dneg MInf = PInf"
| "dneg NaN = NaN"

fun dadd :: "double \<Rightarrow> double \<Rightarrow> double" where
  "dadd NaN _ = NaN"
| "dadd _ NaN = NaN"
| "dadd (Fin a) (Fin b) = Fin (a + b)"
| "dadd PInf MInf = NaN"
| "dadd MInf PInf = NaN"
| "dadd PInf _ = PInf"
| "dadd MInf _ = MInf"
| "dadd _ PInf = PInf"
| "dadd _ MInf = MInf"

definition dsub :: "double \<Rightarrow> double \<Rightarrow> double" where
  "dsub a b = dadd a (dneg b)"

text \<open>The sign of a value that is not NaN: \<open>-1\<close>, \<open>0\<close> or \<open>1\<close>.\<close>

fun dsgn :: "double \<Rightarrow> real" where
  "dsgn (Fin a) = sgn a"
| "dsgn PInf = 1"
| "dsgn MInf = - 1"
| "dsgn NaN = 0"

fun dmul :: "double \<Rightarrow> double \<Rightarrow> double" where
  "dmul NaN _ = NaN"
| "dmul _ NaN = NaN"
| "dmul (Fin a) (Fin b) = Fin (a * b)"
| "dmul a b =
     (if dsgn a * dsgn b = 0 then NaN else if 0 < dsgn a * dsgn b then PInf else MInf)"

text \<open>
  Division: a finite nonzero value over zero is an infinity (the zero divisor is taken as
  \<open>+0\<close>), \<open>0 / 0\<close> and \<open>inf / inf\<close> are NaN, a finite value over an infinity is zero, an
  infinity over a finite value is an infinity with the product of the signs.
\<close>

fun ddiv :: "double \<Rightarrow> double \<Rightarrow> double" where
  "ddiv NaN _ = NaN"
| "ddiv _ NaN = NaN"
| "ddiv (Fin a) (Fin b) =
     (if b = 0 then (if a = 0 then NaN else if 0 < a then PInf else MInf) else Fin (a / b))"
| "ddiv (Fin a) _ = Fin 0"
| "ddiv a (Fin b) = (if (0 < dsgn a) = (0 \<le> b) then PInf else MInf)"
| "ddiv _ _ = NaN"

fun dlt :: "double \<Rightarrow> double \<Rightarrow> bool" where
  "dlt NaN _ = False"
| "dlt _ NaN = False"
| "dlt (Fin a) (Fin b) = (a < b)"
| "dlt MInf MInf = False"
| "dlt MInf _ = True"
| "dlt _ MInf = False"
| "dlt PInf _ = False"
| "dlt _ PInf = True"

definition dgt :: "double \<Rightarrow> double \<Rightarrow> bool" where
  "dgt a b = dlt b a"

text \<open>\<open>a != b\<close> on doubles: true as soon as one side is NaN.\<close>

fun dne :: "double \<Rightarrow> double \<Rightarrow> bool" where
  "dne NaN _ = True"
| "dne _ NaN = True"
| "dne a b = (a \<noteq> b)"

fun fabs :: "double \<Rightarrow> double" where
  "fabs (Fin a) = Fin \<bar>a\<bar>"
| "fabs PInf = PInf"
| "fabs MInf = PInf"
| "fabs NaN = NaN"

text \<open>
  \<open>std::fmod(x, y)\<close>: the remainder of the division truncated towards zero, with the sign
  of \<open>x\<close>; NaN when \<open>x\<close> is infinite or \<open>y\<close> is zero; \<open>x\<close> itself when \<open>y\<close> is infinite.
\<close>

definition fmod_real :: "real \<Rightarrow> real \<Rightarrow> real" where
  "fmod_real a b = sgn a * (\<bar>a\<bar> - \<bar>b\<bar> * of_int \<lfloor>\<bar>a\<bar> / \<bar>b\<bar>\<rfloor>)"

fun fmod :: "double \<Rightarrow> double \<Rightarrow> double" where
  "fmod NaN _ = NaN"
| "fmod _ NaN = NaN"
| "fmod PInf _ = NaN"
| "fmod MInf _ = NaN"
| "fmod (Fin a) (Fin b) = (if b = 0 then NaN else Fin (fmod_real a b))"
| "fmod (Fin a) _ = Fin a"

text \<open>
  \<open>std::copysign(m, s)\<close>: the magnitude of \<open>m\<close> with the sign of \<open>s\<close>. A zero \<open>s\<close> counts as
  positive here (the model has no negative zero), and so does NaN.
\<close>

definition copysign :: "double \<Rightarrow> double \<Rightarrow> double" where
  "copysign m s = (if dsgn s < 0 then dneg (fabs m) else fabs m)"

text \<open>\<open>std::fpclassify(x)\<close> is \<open>FP_NAN\<close> or \<open>FP_INFINITE\<close>.\<close>

fun nonfinite :: "double \<Rightarrow> bool" where
  "nonfinite (Fin a) = False"
| "nonfinite _ = True"

text \<open>The conversions \<open>double(bool)\<close> and \<open>double(int)\<close>.\<close>

definition double_of_bool :: "bool \<Rightarrow> double" where
  "double_of_bool b = (if b then Fin 1 else Fin 0)"

definition double_of_int :: "int \<Rightarrow> double" where
  "double_of_int n = Fin (of_int n)"

text \<open>
  Modelled from the spec: \<open>clamp\<close> of \<open>compat/math.hpp\<close>, which this file only calls
  (``clamp to [-180, 180]'', ``\<open>clamp(target - backlog, 0, 10ms)\<close>''): the upper bound
  when the value is above it, the lower bound when it is below, the value otherwise.
\<close>

definition clamp :: "double \<Rightarrow> double \<Rightarrow> double \<Rightarrow> double" where
  "clamp x lo hi = (if dgt x hi then hi else if dlt x lo then lo else x)"

subsection \<open>Rounding to binary64\<close>

text \<open>
  The nearest integer, ties to the even one; the power of two \<open>2^k\<close> for an integer \<open>k\<close>;
  and the search for the binade of a nonnegative real: \<open>binade 11 (-1022) a\<close> is the largest
  \<open>e\<close> from \<open>-1022\<close> to \<open>1025\<close> with \<open>2^e \<le> a\<close>, found bit by bit, and \<open>-1022\<close> when there is
  none (the subnormal numbers share the exponent of the smallest normal ones).
\<close>

definition round_even :: "real \<Rightarrow> int" where
  "round_even q =
     (let f = \<lfloor>q\<rfloor>; d = q - of_int f
      in if d < 1 / 2 then f else if 1 / 2 < d then f + 1 else if even f then f else f + 1)"

definition pow2 :: "int \<Rightarrow> real" where
  "pow2 k = 2 powi k"

fun binade :: "nat \<Rightarrow> int \<Rightarrow> real \<Rightarrow> int" where
  "binade 0 e a = e"
| "binade (Suc n) e a =
     (if pow2 (e + 2 ^ n) \<le> a then binade n (e + 2 ^ n) a else binade n e a)"

text \<open>
  Round to nearest, ties to even, with 53 bits of precision: the real is rounded to a
  multiple of the unit in the last place of its binade, and a result of \<open>2^1024\<close> or more
  is an infinity. \<open>fl\<close> rounds the result of an operation: the special values stay.
\<close>

definition round_double :: "real \<Rightarrow> double" where
  "round_double x =
     (let a = \<bar>x\<bar>;
          e = binade 11 (- 1022) a;
          ulp = pow2 (e - 52);
          r = of_int (round_even (a / ulp)) * ulp
      in if pow2 1024 \<le> r then (if 0 < x then PInf else MInf) else Fin (sgn x * r))"

fun fl :: "double \<Rightarrow> double" where
  "fl (Fin x) = round_double x"
| "fl d = d"

subsection \<open>Vectors, matrices and poses\<close>

text \<open>
  \<open>euler_t\<close> is a column of three doubles, \<open>rmat\<close> three rows of three, \<open>Pose\<close> a column of
  six; \<open>vec3_bool\<close> and \<open>vec6_bool\<close> hold flags. The types and the channel names are
  declared outside \<open>pipeline.cpp\<close>; the order \<open>TX, TY, TZ, Yaw, Pitch, Roll\<close> (indices 0 to 5)
  is the one of the spec's data model.
\<close>

datatype 'a vec3 = Vec3 (e0: 'a) (e1: 'a) (e2: 'a)

datatype 'a vec6 = Vec6 (TX: 'a) (TY: 'a) (TZ: 'a) (Yaw: 'a) (Pitch: 'a) (Roll: 'a)

type_synonym euler_t = "double vec3"
type_synonym rmat = "double vec3 vec3"
type_synonym Pose = "double vec6"
type_synonym vec3_bool = "bool vec3"
type_synonym vec6_bool = "bool vec6"

text \<open>
  \<open>p(k)\<close> for an index computed at run time. Outside \<open>0..5\<close> the C++ read is out of bounds;
  the model answers \<open>None\<close> there.
\<close>

definition at6 :: "'a vec6 \<Rightarrow> int \<Rightarrow> 'a option" where
  "at6 p k =
     (if k = 0 then Some (TX p) else if k = 1 then Some (TY p) else if k = 2 then Some (TZ p)
      else if k = 3 then Some (Yaw p) else if k = 4 then Some (Pitch p)
      else if k = 5 then Some (Roll p) else None)"

definition zero_pose :: Pose where
  "zero_pose = Vec6 (Fin 0) (Fin 0) (Fin 0) (Fin 0) (Fin 0) (Fin 0)"

definition zero_euler :: euler_t where
  "zero_euler = Vec3 (Fin 0) (Fin 0) (Fin 0)"

section \<open>Clamper\<close>

text \<open>
  The body of the loop of \<open>pipeline::clamp_value\<close> for one rotation channel, and the
  function itself: the loop runs over the channels 3, 4 and 5.
\<close>

definition clamp_channel :: "double \<Rightarrow> double" where
  "clamp_channel v =
     (let x = fmod v (Fin 360) in
      if dgt (dsub (fabs x) (Fin (1 / 100))) (Fin 180)
      then dsub (fmod (dadd x (copysign (Fin 180) x)) (Fin 360)) (copysign (Fin 180) x)
      else clamp x (Fin (- 180)) (Fin 180))"

definition clamp_value :: "Pose \<Rightarrow> Pose" where
  "clamp_value v =
     Vec6 (TX v) (TY v) (TZ v)
          (clamp_channel (Yaw v)) (clamp_channel (Pitch v)) (clamp_channel (Roll v))"


section \<open>FlagRegister\<close>

text \<open>
  \<open>bits::b\<close> is an atomic \<open>unsigned\<close>, here a 32-bit word. \<open>set_word\<close> and \<open>negate_word\<close>
  are the words that \<open>bits::set\<close> and \<open>bits::negate\<close> hand to \<open>compare_exchange_weak\<close> as the
  desired value, computed from the word just read (\<open>b_\<close> in the source, \<open>w\<close> here).
\<close>

definition set_word :: "32 word \<Rightarrow> bool \<Rightarrow> 32 word \<Rightarrow> 32 word" where
  "set_word flag val w = (w AND NOT flag) OR (flag * (if val then 1 else 0))"

definition negate_word :: "32 word \<Rightarrow> 32 word \<Rightarrow> 32 word" where
  "negate_word flag w = w XOR flag"

text \<open>
  The retry loop \<open>for (;;) { unsigned w(b); if (b.compare_exchange_weak(w, f(w))) break; }\<close>
  run by one thread with no other writer: the word read is the word stored, so an attempt
  can only fail spuriously, which \<open>compare_exchange_weak\<close> is allowed to do. The list gives
  the outcome of the successive attempts (\<open>True\<close>: the exchange takes place). The loop
  returns at the first successful attempt; \<open>None\<close> says that it is still spinning when
  the list is used up.
\<close>

fun cas_loop :: "(32 word \<Rightarrow> 32 word) \<Rightarrow> bool list \<Rightarrow> 32 word \<Rightarrow> 32 word option" where
  "cas_loop f [] b = None"
| "cas_loop f (ok # rest) b = (if ok then Some (f b) else cas_loop f rest b)"

definition bits_set :: "bool list \<Rightarrow> 32 word \<Rightarrow> bool \<Rightarrow> 32 word \<Rightarrow> 32 word option" where
  "bits_set attempts flag val b = cas_loop (set_word flag val) attempts b"

definition bits_negate :: "bool list \<Rightarrow> 32 word \<Rightarrow> 32 word \<Rightarrow> 32 word option" where
  "bits_negate attempts flag b = cas_loop (negate_word flag) attempts b"

definition bits_get :: "32 word \<Rightarrow> 32 word \<Rightarrow> bool" where
  "bits_get flag b = (b AND flag \<noteq> 0)"

datatype flags = f_center | f_enabled_h | f_enabled_p | f_zero

text \<open>
  Modelled from the spec: the values of the enumerators of \<open>bits::flags\<close>, declared in
  \<open>pipeline.hpp\<close>: ``4 independent named bits packed in one atomically-accessed integer''.
\<close>

fun flag_mask :: "flags \<Rightarrow> 32 word" where
  "flag_mask f_center = 1"
| "flag_mask f_enabled_h = 2"
| "flag_mask f_enabled_p = 4"
| "flag_mask f_zero = 8"

text \<open>
  Inside a tick the calls \<open>set(F, v)\<close>, \<open>negate(F)\<close> and \<open>get(F)\<close> are taken at the word the
  loop stores when it returns (\<open>cas_loop_returns\<close> below).
\<close>

definition set_flag :: "flags \<Rightarrow> bool \<Rightarrow> 32 word \<Rightarrow> 32 word" where
  "set_flag F val b = set_word (flag_mask F) val b"

definition negate_flag :: "flags \<Rightarrow> 32 word \<Rightarrow> 32 word" where
  "negate_flag F b = negate_word (flag_mask F) b"

definition get_flag :: "flags \<Rightarrow> 32 word \<Rightarrow> bool" where
  "get_flag F b = bits_get (flag_mask F) b"

text \<open>The constructor \<open>bits::bits()\<close>.\<close>

definition bits_init :: "32 word" where
  "bits_init =
     set_flag f_zero False (set_flag f_enabled_h True (set_flag f_enabled_p True
       (set_flag f_center True 0)))"

section \<open>Configuration and collaborators\<close>

text \<open>
  \<open>m(i).opts\<close>, the two curves of an axis, the settings \<open>s\<close>, the libraries \<open>libs\<close> and the
  event handler \<open>ev\<close> are declared outside \<open>pipeline.cpp\<close>; the records hold the members
  the file reads. A curve is the function \<open>get_value\<close> computes; \<open>set_tracking_active\<close>
  only drives the curve display and is left out. The tracker is given by what its two
  calls return during the tick. The filter, when there is one, is the function
  \<open>filter(value, tmp)\<close> computes during the tick. The event hooks receive the pose by
  reference and may rewrite it.
\<close>

record axis_opts =
  src :: int
  invert :: bool
  zero :: double
  altp :: bool

record Map =
  opts :: axis_opts
  spline_main :: "double \<Rightarrow> double"
  spline_alt :: "double \<Rightarrow> double"

datatype reltrans_state = reltrans_disabled | reltrans_enabled | reltrans_non_center

record settings =
  center_at_startup :: bool
  neck_enable :: bool
  neck_z :: int
  reltrans_mode :: reltrans_state
  reltrans_disable_src_yaw :: bool
  reltrans_disable_src_pitch :: bool
  reltrans_disable_src_roll :: bool
  reltrans_disable_tx :: bool
  reltrans_disable_ty :: bool
  reltrans_disable_tz :: bool

record ITracker =
  data :: Pose
  center :: bool

record runtime_libraries =
  pTracker :: ITracker
  pFilter :: "(Pose \<Rightarrow> Pose) option"

record event_handler =
  ev_raw :: "Pose \<Rightarrow> Pose"
  ev_before_filter :: "Pose \<Rightarrow> Pose"
  ev_before_mapping :: "Pose \<Rightarrow> Pose"
  ev_finished :: "Pose \<Rightarrow> Pose"

text \<open>
  Everything a tick reads from outside the pipeline object. \<open>c_mult\<close> and \<open>c_div\<close> are
  constants of \<open>pipeline.hpp\<close>; \<open>euler_to_rmat\<close> and \<open>rmat_to_euler\<close> are the conversions of
  \<open>compat/euler\<close>; \<open>elapsed_seconds\<close> is what \<open>interp_timer.elapsed_seconds()\<close> returns when
  the tick calls it. All of them are parameters.
\<close>

record env =
  mappings :: "Map vec6"
  settings :: settings
  libs :: runtime_libraries
  ev :: event_handler
  c_mult :: double
  c_div :: double
  euler_to_rmat :: "euler_t \<Rightarrow> rmat"
  rmat_to_euler :: "rmat \<Rightarrow> euler_t"
  elapsed_seconds :: double

section \<open>AxisSelector\<close>

text \<open>
  One round of the loop of \<open>pipeline::get_selected_axis_value\<close> computes \<open>value(i)\<close> from
  \<open>k = m(i).opts.src\<close>; the function runs it for the six axes and returns
  \<open>{ newpose, value, disabled }\<close>. It is \<open>None\<close> when a read of \<open>newpose(k)\<close> is out of
  bounds.
\<close>

definition select_channel :: "Pose \<Rightarrow> int \<Rightarrow> double option" where
  "select_channel newpose k = (if k < 0 \<or> k \<ge> 6 then Some (Fin 0) else at6 newpose k)"

definition opt6 :: "'a option vec6 \<Rightarrow> 'a vec6 option" where
  "opt6 v =
     (case v of
        Vec6 (Some a0) (Some a1) (Some a2) (Some a3) (Some a4) (Some a5) \<Rightarrow>
          Some (Vec6 a0 a1 a2 a3 a4 a5)
      | _ \<Rightarrow> None)"

definition get_selected_axis_value :: "Map vec6 \<Rightarrow> Pose \<Rightarrow> (Pose \<times> Pose \<times> vec6_bool) option" where
  "get_selected_axis_value m newpose =
     (case opt6 (map_vec6 (\<lambda>axis. select_channel newpose (src (opts axis))) m) of
        None \<Rightarrow> None
      | Some value \<Rightarrow> Some (newpose, value, map_vec6 (\<lambda>axis. src (opts axis) = 6) m))"


section \<open>Rotation arithmetic\<close>

text \<open>
  Modelled from the spec: the operators of the matrix template of \<open>compat/simple-mat.hpp\<close>
  that this file uses (``composition is matrix multiplication''): identity, transpose,
  matrix product, matrix times column, sum and difference of columns, a column scaled
  by a number.
\<close>

definition dot3 :: "euler_t \<Rightarrow> euler_t \<Rightarrow> double" where
  "dot3 a x = dadd (dadd (dmul (e0 a) (e0 x)) (dmul (e1 a) (e1 x))) (dmul (e2 a) (e2 x))"

definition eye :: rmat where
  "eye = Vec3 (Vec3 (Fin 1) (Fin 0) (Fin 0)) (Vec3 (Fin 0) (Fin 1) (Fin 0))
              (Vec3 (Fin 0) (Fin 0) (Fin 1))"

definition transpose_rmat :: "rmat \<Rightarrow> rmat" where
  "transpose_rmat A =
     Vec3 (Vec3 (e0 (e0 A)) (e0 (e1 A)) (e0 (e2 A)))
          (Vec3 (e1 (e0 A)) (e1 (e1 A)) (e1 (e2 A)))
          (Vec3 (e2 (e0 A)) (e2 (e1 A)) (e2 (e2 A)))"

definition mat_vec :: "rmat \<Rightarrow> euler_t \<Rightarrow> euler_t" where
  "mat_vec A x = map_vec3 (\<lambda>row. dot3 row x) A"

definition mat_mul :: "rmat \<Rightarrow> rmat \<Rightarrow> rmat" where
  "mat_mul A B = map_vec3 (\<lambda>row. map_vec3 (dot3 row) (transpose_rmat B)) A"

definition vadd :: "euler_t \<Rightarrow> euler_t \<Rightarrow> euler_t" where
  "vadd x y = Vec3 (dadd (e0 x) (e0 y)) (dadd (e1 x) (e1 y)) (dadd (e2 x) (e2 y))"

definition vsub :: "euler_t \<Rightarrow> euler_t \<Rightarrow> euler_t" where
  "vsub x y = Vec3 (dsub (e0 x) (e0 y)) (dsub (e1 x) (e1 y)) (dsub (e2 x) (e2 y))"

definition scale_left :: "double \<Rightarrow> euler_t \<Rightarrow> euler_t" where
  "scale_left k x = map_vec3 (dmul k) x"

definition scale_right :: "euler_t \<Rightarrow> double \<Rightarrow> euler_t" where
  "scale_right x k = map_vec3 (\<lambda>c. dmul c k) x"

text \<open>\<open>euler_t(&value[0])\<close> and \<open>euler_t(&value[Yaw])\<close>: three consecutive channels of a pose.\<close>

definition translation_of :: "Pose \<Rightarrow> euler_t" where
  "translation_of value = Vec3 (TX value) (TY value) (TZ value)"

definition rotation_of :: "Pose \<Rightarrow> euler_t" where
  "rotation_of value = Vec3 (Yaw value) (Pitch value) (Roll value)"

text \<open>The macro \<open>M_PI\<close> of \<open><cmath>\<close>, as the decimal it is written as, and the two factors.\<close>

definition M_PI :: real where
  "M_PI = 314159265358979323846 / 100000000000000000000"

definition r2d :: double where
  "r2d = Fin (180 / M_PI)"

definition d2r :: double where
  "d2r = Fin (M_PI / 180)"

section \<open>ReltransEngine\<close>

text \<open>
  \<open>reltrans::rotate\<close>. In a column of three, \<open>TX\<close>, \<open>TY\<close>, \<open>TZ\<close> are the entries 0, 1, 2 and
  \<open>tb_Z\<close>, \<open>tb_X\<close>, \<open>tb_Y\<close> the entries 0, 1, 2 of the product.
\<close>

definition rotate :: "rmat \<Rightarrow> euler_t \<Rightarrow> vec3_bool \<Rightarrow> euler_t" where
  "rotate R inp disable =
     (let ret = mat_vec R (Vec3 (e2 inp) (dneg (e0 inp)) (dneg (e1 inp)))
      in Vec3 (if e0 disable then e0 inp else dneg (e1 ret))
              (if e1 disable then e1 inp else dneg (e2 ret))
              (if e2 disable then e2 inp else e0 ret))"

text \<open>The members of \<open>reltrans\<close>; \<open>interp_timer\<close> is read through \<open>elapsed_seconds\<close>.\<close>

record reltrans =
  cur :: bool
  in_zone :: bool
  interp_pos :: euler_t

text \<open>
  The pieces of \<open>reltrans::apply_pipeline\<close> when the mode is not \<open>reltrans_disabled\<close>:
  the zone test (lines 73 to 83), the translation after the optional rotation (lines 70
  and 96 to 103), and the blend of line 115. The interpolation (lines 107 to 127) is in
  binary64: the literals \<open>.1\<close> and \<open>.05\<close> are the doubles nearest to them, and every
  operation rounds its result once (no fused multiply-add).
\<close>

definition tcomp_in_zone :: "reltrans_state \<Rightarrow> Pose \<Rightarrow> bool" where
  "tcomp_in_zone state value =
     (if state = reltrans_non_center
      then \<not> (dlt (fabs (Yaw value)) (Fin 50) \<and> dlt (fabs (Pitch value)) (Fin 40))
      else True)"

definition rotated_rel :: "(euler_t \<Rightarrow> rmat) \<Rightarrow> reltrans_state \<Rightarrow> Pose \<Rightarrow> vec6_bool \<Rightarrow> euler_t" where
  "rotated_rel to_rmat state value disable =
     (if tcomp_in_zone state value
      then rotate
             (to_rmat (Vec3 (dmul (dmul (Yaw value) d2r) (double_of_bool (\<not> Yaw disable)))
                            (dmul (dmul (Pitch value) d2r) (double_of_bool (\<not> Pitch disable)))
                            (dmul (dmul (Roll value) d2r) (double_of_bool (\<not> Roll disable)))))
             (translation_of value)
             (Vec3 (TX disable) (TY disable) (TZ disable))
      else translation_of value)"

definition fl3 :: "euler_t \<Rightarrow> euler_t" where
  "fl3 x = map_vec3 fl x"

definition interp_alpha :: "double \<Rightarrow> double" where
  "interp_alpha dt = fl (ddiv dt (fl (dadd dt (fl (Fin (1 / 10))))))"

definition interp_blend :: "double \<Rightarrow> euler_t \<Rightarrow> euler_t \<Rightarrow> euler_t" where
  "interp_blend dt ipos rel =
     fl3 (vadd (fl3 (scale_right ipos (fl (dsub (Fin 1) (interp_alpha dt)))))
               (fl3 (scale_right rel (interp_alpha dt))))"

definition apply_pipeline ::
  "(euler_t \<Rightarrow> rmat) \<Rightarrow> double \<Rightarrow> reltrans_state \<Rightarrow> Pose \<Rightarrow> vec6_bool \<Rightarrow> reltrans
     \<Rightarrow> Pose \<times> reltrans" where
  "apply_pipeline to_rmat dt state value disable r =
     (if state \<noteq> reltrans_disabled then
        let zone = tcomp_in_zone state value;
            cur1 = (if \<not> cur r \<and> in_zone r \<noteq> zone then True else cur r);
            rel = rotated_rel to_rmat state value disable
        in if cur1 then
             let ipos = interp_blend dt (interp_pos r) rel;
                 tmp = fl3 (vsub rel ipos);
                 delta = fl (dadd (fl (dadd (fabs (e0 tmp)) (fabs (e0 tmp)))) (fabs (e0 tmp)))
             in (Vec6 (e0 ipos) (e1 ipos) (e2 ipos) (Yaw value) (Pitch value) (Roll value),
                 \<lparr>cur = (if dlt delta (fl (Fin (5 / 100))) then False else cur1),
                  in_zone = zone, interp_pos = ipos\<rparr>)
           else
             (Vec6 (e0 rel) (e1 rel) (e2 rel) (Yaw value) (Pitch value) (Roll value),
              \<lparr>cur = cur1, in_zone = zone, interp_pos = rel\<rparr>)
      else (value, r\<lparr>cur := False, in_zone := False\<rparr>))"

definition apply_neck :: "(euler_t \<Rightarrow> rmat) \<Rightarrow> Pose \<Rightarrow> bool \<Rightarrow> int \<Rightarrow> euler_t" where
  "apply_neck to_rmat value enable nz =
     (if \<not> enable then zero_euler
      else if nz \<noteq> 0 then
        let neck = rotate (to_rmat (scale_right (rotation_of value) d2r))
                          (Vec3 (Fin 0) (Fin 0) (double_of_int nz)) (Vec3 False False False)
        in Vec3 (e0 neck) (e1 neck) (dsub (e2 neck) (double_of_int nz))
      else zero_euler)"


section \<open>The pipeline object\<close>

text \<open>
  The members of \<open>pipeline\<close> that \<open>pipeline.cpp\<close> reads and writes; \<open>flag_word\<close> is \<open>bits::b\<close>.
  Five more fields record what the tick does to the outside: \<open>protocol_pose\<close> is the last
  pose handed to \<open>libs.pProtocol->pose\<close>, \<open>nan_once\<close> is the static
  flag of the one \<open>once_only\<close> in \<open>emit_nan_check_msg\<close>, \<open>qdebug\<close> lists the ``nan check
  failed'' messages written (the text and the line of the check), \<open>filter_center_calls\<close>
  counts the calls of \<open>libs.pFilter->center()\<close>, \<open>center_captures\<close> the executions of the
  branch of \<open>maybe_set_center_pose\<close> that stores a center pose. The logger and the mutex
  are left out.
\<close>

record rot_state =
  rotation :: rmat
  rot_center :: rmat

record pipeline =
  flag_word :: "32 word"
  tracking_started :: bool
  newpose :: Pose
  scaled_rotation :: rot_state
  real_rotation :: rot_state
  t_center :: euler_t
  rel :: reltrans
  output_pose :: Pose
  raw_6dof :: Pose
  protocol_pose :: Pose
  nan_once :: bool
  qdebug :: "(string \<times> nat) list"
  filter_center_calls :: nat
  center_captures :: nat

section \<open>NaN guard\<close>

definition is_nan :: "Pose \<Rightarrow> bool" where
  "is_nan r =
     (nonfinite (TX r) \<or> nonfinite (TY r) \<or> nonfinite (TZ r) \<or>
      nonfinite (Yaw r) \<or> nonfinite (Pitch r) \<or> nonfinite (Roll r))"

text \<open>
  Modelled from the spec: the macro \<open>once_only\<close> of \<open>compat/macros.hpp\<close>, used by
  \<open>emit_nan_check_msg\<close>: ``emit a one-time diagnostic (suppressed on repeat)''. Its
  statement runs the first time the place is reached and never again.
\<close>

definition emit_nan_check_msg :: "string \<Rightarrow> nat \<Rightarrow> pipeline \<Rightarrow> pipeline" where
  "emit_nan_check_msg text line s =
     (if nan_once s then s else s\<lparr>nan_once := True, qdebug := qdebug s @ [(text, line)]\<rparr>)"

definition maybe_nan :: "string \<Rightarrow> nat \<Rightarrow> Pose \<Rightarrow> pipeline \<Rightarrow> bool \<times> pipeline" where
  "maybe_nan text line val s =
     (if is_nan val then (True, emit_nan_check_msg text line s) else (False, s))"

section \<open>CenteringEngine\<close>

definition any_nonzero :: "Pose \<Rightarrow> bool" where
  "any_nonzero p =
     (dne (fabs (TX p)) (Fin 0) \<or> dne (fabs (TY p)) (Fin 0) \<or> dne (fabs (TZ p)) (Fin 0) \<or>
      dne (fabs (Yaw p)) (Fin 0) \<or> dne (fabs (Pitch p)) (Fin 0) \<or> dne (fabs (Roll p)) (Fin 0))"

definition maybe_enable_center_on_tracking_started :: "env \<Rightarrow> pipeline \<Rightarrow> pipeline" where
  "maybe_enable_center_on_tracking_started e s =
     (if \<not> tracking_started s then
        let s1 = (if any_nonzero (newpose s) then s\<lparr>tracking_started := True\<rparr> else s)
        in if tracking_started s1 \<and> center_at_startup (settings e)
           then s1\<lparr>flag_word := set_flag f_center True (flag_word s1)\<rparr>
           else s1
      else s)"

definition maybe_set_center_pose :: "env \<Rightarrow> Pose \<Rightarrow> bool \<Rightarrow> pipeline \<Rightarrow> pipeline" where
  "maybe_set_center_pose e value own_center_logic s =
     (let tmp = scale_left d2r (rotation_of value);
          s1 = s\<lparr>scaled_rotation :=
                   (scaled_rotation s)\<lparr>rotation := euler_to_rmat e (scale_left (c_div e) tmp)\<rparr>,
                 real_rotation := (real_rotation s)\<lparr>rotation := euler_to_rmat e tmp\<rparr>\<rparr>
      in if get_flag f_center (flag_word s1) then
           let s2 = (case pFilter (libs e) of
                       Some _ \<Rightarrow> s1\<lparr>filter_center_calls := Suc (filter_center_calls s1)\<rparr>
                     | None \<Rightarrow> s1);
               s3 = s2\<lparr>center_captures := Suc (center_captures s2)\<rparr>
           in if own_center_logic then
                s3\<lparr>scaled_rotation := (scaled_rotation s3)\<lparr>rot_center := eye\<rparr>,
                   real_rotation := (real_rotation s3)\<lparr>rot_center := eye\<rparr>,
                   t_center := zero_euler\<rparr>
              else
                s3\<lparr>real_rotation :=
                     (real_rotation s3)\<lparr>rot_center := transpose_rmat (rotation (real_rotation s3))\<rparr>,
                   scaled_rotation :=
                     (scaled_rotation s3)\<lparr>rot_center := transpose_rmat (rotation (scaled_rotation s3))\<rparr>,
                   t_center := translation_of value\<rparr>
         else s1)"

definition invert_if :: "Map \<Rightarrow> double \<Rightarrow> double" where
  "invert_if axis x = (if invert (opts axis) then dneg x else x)"

definition apply_center :: "env \<Rightarrow> pipeline \<Rightarrow> Pose \<Rightarrow> Pose" where
  "apply_center e s value =
     (let rotation1 = mat_mul (rotation (scaled_rotation s)) (rot_center (scaled_rotation s));
          pos = vsub (translation_of value) (t_center s);
          rot = scale_left (dmul r2d (c_mult e)) (rmat_to_euler e rotation1);
          pos1 = rotate (rot_center (real_rotation s)) pos (Vec3 False False False);
          m = mappings e
      in Vec6 (invert_if (TX m) (e0 pos1)) (invert_if (TY m) (e1 pos1)) (invert_if (TZ m) (e2 pos1))
              (invert_if (Yaw m) (e0 rot)) (invert_if (Pitch m) (e1 rot))
              (invert_if (Roll m) (e2 rot)))"

section \<open>FilterAdapter, CurveMapper, zero position\<close>

definition maybe_apply_filter :: "env \<Rightarrow> Pose \<Rightarrow> Pose" where
  "maybe_apply_filter e value = (case pFilter (libs e) of None \<Rightarrow> value | Some f \<Rightarrow> f value)"

text \<open>\<open>pipeline::map\<close>.\<close>

definition map_axis :: "double \<Rightarrow> Map \<Rightarrow> double" where
  "map_axis pos axis =
     (let alt = (dlt pos (Fin 0) \<and> altp (opts axis))
      in if alt then spline_alt axis pos else spline_main axis pos)"

definition zero_pos_channel :: "Map \<Rightarrow> double \<Rightarrow> double" where
  "zero_pos_channel axis v =
     dadd v (dmul (zero (opts axis)) (double_of_int (if invert (opts axis) then - 1 else 1)))"

definition apply_zero_pos :: "Map vec6 \<Rightarrow> Pose \<Rightarrow> Pose" where
  "apply_zero_pos m value =
     Vec6 (zero_pos_channel (TX m) (TX value)) (zero_pos_channel (TY m) (TY value))
          (zero_pos_channel (TZ m) (TZ value)) (zero_pos_channel (Yaw m) (Yaw value))
          (zero_pos_channel (Pitch m) (Pitch value)) (zero_pos_channel (Roll m) (Roll value))"

definition apply_reltrans :: "env \<Rightarrow> Pose \<Rightarrow> vec6_bool \<Rightarrow> pipeline \<Rightarrow> Pose \<times> pipeline" where
  "apply_reltrans e value disabled s =
     (let st = settings e;
          neck = apply_neck (euler_to_rmat e) value (neck_enable st) (- neck_z st);
          (value1, r) =
            apply_pipeline (euler_to_rmat e) (elapsed_seconds e) (reltrans_mode st) value
              (Vec6 (reltrans_disable_src_yaw st) (reltrans_disable_src_pitch st)
                    (reltrans_disable_src_roll st) (reltrans_disable_tx st)
                    (reltrans_disable_ty st) (reltrans_disable_tz st))
              (rel s);
          value2 = Vec6 (dadd (TX value1) (e0 neck)) (dadd (TY value1) (e1 neck))
                        (dadd (TZ value1) (e2 neck)) (Yaw value1) (Pitch value1) (Roll value1)
      in (Vec6 (if TX disabled then Fin 0 else TX value2) (if TY disabled then Fin 0 else TY value2)
               (if TZ disabled then Fin 0 else TZ value2) (if Yaw disabled then Fin 0 else Yaw value2)
               (if Pitch disabled then Fin 0 else Pitch value2)
               (if Roll disabled then Fin 0 else Roll value2),
          s\<lparr>rel := r\<rparr>))"


section \<open>One tick: \<open>pipeline::logic\<close>\<close>

text \<open>
  \<open>center_ordered\<close> and \<open>own_center_logic\<close> (lines 419 and 420) are computed from the flags
  and the latch as the tick finds them.
\<close>

definition center_ordered :: "pipeline \<Rightarrow> bool" where
  "center_ordered s = (get_flag f_center (flag_word s) \<and> tracking_started s)"

definition own_center_logic :: "env \<Rightarrow> pipeline \<Rightarrow> bool" where
  "own_center_logic e s = (center_ordered s \<and> center (pTracker (libs e)))"

text \<open>
  Lines 425 to 434: read the tracker, check the sample, run the raw hook, and store the
  sample in \<open>newpose\<close> when \<open>get(f_enabled_p) ^ !get(f_enabled_h)\<close>. The boolean is true when
  \<open>nan_check\<close> jumps to \<open>nan\<close>.
\<close>

definition logic_raw :: "env \<Rightarrow> pipeline \<Rightarrow> bool \<times> pipeline" where
  "logic_raw e s =
     (let tmp = data (pTracker (libs e));
          (bad, s1) = maybe_nan ''tmp'' 428 tmp s
      in if bad then (True, s1)
         else
           let tmp1 = ev_raw (ev e) tmp
           in (False,
               if get_flag f_enabled_p (flag_word s1) \<noteq> (\<not> get_flag f_enabled_h (flag_word s1))
               then s1\<lparr>newpose := tmp1\<rparr> else s1))"

text \<open>Lines 439 to 453: clamp, center, filter, and the second check.\<close>

definition logic_filtered :: "env \<Rightarrow> bool \<Rightarrow> Pose \<Rightarrow> pipeline \<Rightarrow> bool \<times> Pose \<times> pipeline" where
  "logic_filtered e own value s =
     (let value1 = clamp_value value;
          s1 = maybe_enable_center_on_tracking_started e s;
          s2 = maybe_set_center_pose e value1 own s1;
          value2 = apply_center e s2 value1;
          value3 = maybe_apply_filter e (ev_before_filter (ev e) value2);
          (bad, s3) = maybe_nan ''value'' 451 value3 s2
      in (bad, value3, s3))"

text \<open>Lines 455 to 469: the curves, the translation compensation, and the third check.\<close>

definition logic_mapped :: "env \<Rightarrow> Pose \<Rightarrow> vec6_bool \<Rightarrow> pipeline \<Rightarrow> bool \<times> Pose \<times> pipeline" where
  "logic_mapped e value disabled s =
     (let m = mappings e;
          value1 = ev_before_mapping (ev e) value;
          value2 = Vec6 (TX value1) (TY value1) (TZ value1) (map_axis (Yaw value1) (Yaw m))
                        (map_axis (Pitch value1) (Pitch m)) (map_axis (Roll value1) (Roll m));
          (value3, s1) = apply_reltrans e value2 disabled s;
          value4 = Vec6 (map_axis (TX value3) (TX m)) (map_axis (TY value3) (TY m))
                        (map_axis (TZ value3) (TZ m)) (Yaw value3) (Pitch value3) (Roll value3);
          (bad, s2) = maybe_nan ''value'' 468 value4 s1
      in (bad, value4, s2))"

text \<open>
  The tick up to the labels: either a check jumped to \<open>nan\<close>, or the tick reaches \<open>ok\<close> with
  \<open>value\<close> and \<open>raw\<close>. \<open>logic_selected\<close> is the part after the axis selection (lines 439 to
  469); in \<open>logic_stages\<close>, \<open>None\<close> is an out-of-bounds read in the axis selection.
\<close>

datatype tick = jumped: Goto_nan pipeline | Goto_ok pipeline Pose Pose

definition logic_selected :: "env \<Rightarrow> bool \<Rightarrow> Pose \<Rightarrow> Pose \<Rightarrow> vec6_bool \<Rightarrow> pipeline \<Rightarrow> tick" where
  "logic_selected e own raw value disabled s =
     (let (bad, value1, s1) = logic_filtered e own value s
      in if bad then Goto_nan s1
         else
           let (bad, value2, s2) = logic_mapped e value1 disabled s1
           in if bad then Goto_nan s2 else Goto_ok s2 value2 raw)"

definition logic_stages :: "env \<Rightarrow> pipeline \<Rightarrow> tick option" where
  "logic_stages e s =
     (let own = own_center_logic e s;
          (bad, s1) = logic_raw e s
      in if bad then Some (Goto_nan s1)
         else
           case get_selected_axis_value (mappings e) (newpose s1) of
             None \<Rightarrow> None
           | Some (raw, value, disabled) \<Rightarrow> Some (logic_selected e own raw value disabled s1))"

text \<open>
  From the label \<open>ok\<close> to the end (lines 485 to 505), and the block at the label \<open>nan\<close>
  (lines 473 to 483), which falls through to \<open>ok\<close>.
\<close>

definition logic_ok :: "env \<Rightarrow> pipeline \<Rightarrow> Pose \<Rightarrow> Pose \<Rightarrow> pipeline" where
  "logic_ok e s value raw =
     (let s1 = s\<lparr>flag_word := set_flag f_center False (flag_word s)\<rparr>;
          value1 = (if get_flag f_zero (flag_word s1) then zero_pose else value);
          value2 = apply_zero_pos (mappings e) value1;
          value3 = ev_finished (ev e) value2
      in s1\<lparr>protocol_pose := value3, output_pose := value3, raw_6dof := raw\<rparr>)"

definition logic_nan :: "env \<Rightarrow> pipeline \<Rightarrow> pipeline" where
  "logic_nan e s = logic_ok e s (output_pose s) (raw_6dof s)"

definition logic :: "env \<Rightarrow> pipeline \<Rightarrow> pipeline option" where
  "logic e s =
     (case logic_stages e s of
        None \<Rightarrow> None
      | Some (Goto_nan s1) \<Rightarrow> Some (logic_nan e s1)
      | Some (Goto_ok s1 value raw) \<Rightarrow> Some (logic_ok e s1 value raw))"

text \<open>The pipeline object when the tick reaches its label.\<close>

fun tick_state :: "tick \<Rightarrow> pipeline" where
  "tick_state (Goto_nan s) = s"
| "tick_state (Goto_ok s value raw) = s"

text \<open>Whether the tick took the jump to \<open>nan\<close>.\<close>

definition nan_detected :: "env \<Rightarrow> pipeline \<Rightarrow> bool" where
  "nan_detected e s = (case logic_stages e s of Some t \<Rightarrow> jumped t | None \<Rightarrow> False)"

text \<open>
  Consecutive ticks, one environment each; \<open>None\<close> as soon as a tick is \<open>None\<close>. The
  second function says that every tick of the run took the jump to \<open>nan\<close>.
\<close>

fun ticks :: "env list \<Rightarrow> pipeline \<Rightarrow> pipeline option" where
  "ticks [] s = Some s"
| "ticks (e # es) s = (case logic e s of None \<Rightarrow> None | Some s1 \<Rightarrow> ticks es s1)"

fun nan_ticks :: "env list \<Rightarrow> pipeline \<Rightarrow> bool" where
  "nan_ticks [] s = True"
| "nan_ticks (e # es) s =
     (nan_detected e s \<and> (case logic e s of None \<Rightarrow> False | Some s1 \<Rightarrow> nan_ticks es s1))"


definition set_enabled :: "bool \<Rightarrow> pipeline \<Rightarrow> pipeline" where
  "set_enabled v s = s\<lparr>flag_word := set_flag f_enabled_h v (flag_word s)\<rparr>"

definition set_zero :: "bool \<Rightarrow> pipeline \<Rightarrow> pipeline" where
  "set_zero v s = s\<lparr>flag_word := set_flag f_zero v (flag_word s)\<rparr>"

definition toggle_zero :: "pipeline \<Rightarrow> pipeline" where
  "toggle_zero s = s\<lparr>flag_word := negate_flag f_zero (flag_word s)\<rparr>"

definition toggle_enabled :: "pipeline \<Rightarrow> pipeline" where
  "toggle_enabled s = s\<lparr>flag_word := negate_flag f_enabled_p (flag_word s)\<rparr>"

section \<open>Scheduler\<close>

text \<open>
  The duration types of \<open>time_units\<close> are declared outside \<open>pipeline.cpp\<close>. Durations are
  counted here in nanoseconds, as unbounded integers (\<open>ns\<close>); \<open>ms(n)\<close> and \<open>secs_(n)\<close> are whole
  multiples. \<open>time_cast<ms>(d).count()\<close> is the number of whole milliseconds of \<open>d\<close>,
  rounded towards zero. \<open>clamp_ns\<close> is the same \<open>clamp\<close> as above, on durations.
\<close>

definition ms :: "int \<Rightarrow> int" where
  "ms n = n * 1000000"

definition secs :: "int \<Rightarrow> int" where
  "secs n = n * 1000000000"

definition count_ms :: "int \<Rightarrow> int" where
  "count_ms d = sgn d * (\<bar>d\<bar> div 1000000)"

definition clamp_ns :: "int \<Rightarrow> int \<Rightarrow> int \<Rightarrow> int" where
  "clamp_ns x lo hi = (if x > hi then hi else if x < lo then lo else x)"

text \<open>
  \<open>backlog_time\<close> is the member of \<open>pipeline\<close> the loop of \<open>run\<close> keeps; \<open>slept\<close> lists the
  arguments of \<open>portable::sleep\<close>, \<open>overflows\<close> the backlogs reported as ``backlog interval
  overflow'' (in milliseconds).
\<close>

record scheduler =
  backlog_time :: int
  slept :: "int list"
  overflows :: "int list"

text \<open>
  Lines 539 to 560 of one round of the loop, after \<open>logic()\<close> returned and the timer read
  \<open>elapsed_nsecs\<close>.
\<close>

definition const_sleep_ms :: int where
  "const_sleep_ms = ms 4"

definition reset_backlog :: "scheduler \<Rightarrow> scheduler" where
  "reset_backlog c =
     (if backlog_time c > secs 3 \<or> backlog_time c < secs (- 3)
      then c\<lparr>overflows := overflows c @ [count_ms (backlog_time c)], backlog_time := 0\<rparr>
      else c)"

definition sleep_time_ms :: "int \<Rightarrow> int" where
  "sleep_time_ms backlog = count_ms (clamp_ns (const_sleep_ms - backlog) 0 (ms 10))"

definition run_timing :: "int \<Rightarrow> scheduler \<Rightarrow> scheduler" where
  "run_timing elapsed_nsecs c =
     (let c1 = reset_backlog c;
          c2 = c1\<lparr>backlog_time := backlog_time c1 + (elapsed_nsecs - const_sleep_ms)\<rparr>
      in c2\<lparr>slept := slept c2 @ [sleep_time_ms (backlog_time c2)]\<rparr>)"

text \<open>
  The loop of \<open>pipeline::run\<close>: one entry of the list for each round that starts before the
  interruption is requested, with the environment of its tick and the time the timer
  reads after it.
\<close>

fun run_loop :: "(env \<times> int) list \<Rightarrow> pipeline \<times> scheduler \<Rightarrow> (pipeline \<times> scheduler) option" where
  "run_loop [] sc = Some sc"
| "run_loop ((e, elapsed_nsecs) # rest) (s, c) =
     (case logic e s of
        None \<Rightarrow> None
      | Some s1 \<Rightarrow> run_loop rest (s1, run_timing elapsed_nsecs c))"


section \<open>Sample configuration\<close>

text \<open>An axis with identity curves, and a mapping whose sources cover every case.\<close>

definition sample_axis :: "int \<Rightarrow> bool \<Rightarrow> double \<Rightarrow> Map" where
  "sample_axis k flip z =
     \<lparr>opts = \<lparr>src = k, invert = flip, zero = z, altp = False\<rparr>,
      spline_main = (\<lambda>x. x), spline_alt = (\<lambda>x. x)\<rparr>"

definition sample_sources :: "Map vec6" where
  "sample_sources =
     Vec6 (sample_axis 5 False (Fin 0)) (sample_axis 6 False (Fin 0))
          (sample_axis (- 1) False (Fin 0)) (sample_axis 0 False (Fin 0))
          (sample_axis 7 False (Fin 0)) (sample_axis 2 False (Fin 0))"

text \<open>
  A quarter turn, an environment whose conversions return it for every orientation (its
  tracker delivers the given sample), and a pipeline as the constructors leave it.
\<close>

definition quarter_turn :: rmat where
  "quarter_turn = Vec3 (Vec3 (Fin 0) (Fin (- 1)) (Fin 0)) (Vec3 (Fin 1) (Fin 0) (Fin 0))
                       (Vec3 (Fin 0) (Fin 0) (Fin 1))"

definition sample_env_of :: "Pose \<Rightarrow> env" where
  "sample_env_of sample =
     \<lparr>mappings = Vec6 (sample_axis 0 False (Fin 0)) (sample_axis 1 False (Fin 0))
                      (sample_axis 2 False (Fin 0)) (sample_axis 3 False (Fin 0))
                      (sample_axis 4 False (Fin 0)) (sample_axis 5 False (Fin 0)),
      settings = \<lparr>center_at_startup = True, neck_enable = False, neck_z = 0,
                  reltrans_mode = reltrans_disabled,
                  reltrans_disable_src_yaw = False, reltrans_disable_src_pitch = False,
                  reltrans_disable_src_roll = False, reltrans_disable_tx = False,
                  reltrans_disable_ty = False, reltrans_disable_tz = False\<rparr>,
      libs = \<lparr>pTracker = \<lparr>data = sample, center = False\<rparr>, pFilter = Some (\<lambda>p. p)\<rparr>,
      ev = \<lparr>ev_raw = (\<lambda>p. p), ev_before_filter = (\<lambda>p. p), ev_before_mapping = (\<lambda>p. p),
            ev_finished = (\<lambda>p. p)\<rparr>,
      c_mult = Fin 16, c_div = Fin (1 / 16),
      euler_to_rmat = (\<lambda>_. quarter_turn),
      rmat_to_euler = (\<lambda>R. if R = eye then zero_euler else Vec3 (Fin (M_PI / 2)) (Fin 0) (Fin 0)),
      elapsed_seconds = Fin (1 / 250)\<rparr>"

definition sample_env :: env where
  "sample_env = sample_env_of (Vec6 (Fin 1) (Fin 2) (Fin 3) (Fin 10) (Fin 20) (Fin 30))"

definition sample_pipeline :: pipeline where
  "sample_pipeline =
     \<lparr>flag_word = bits_init, tracking_started = False, newpose = zero_pose,
      scaled_rotation = \<lparr>rotation = eye, rot_center = eye\<rparr>,
      real_rotation = \<lparr>rotation = eye, rot_center = eye\<rparr>,
      t_center = zero_euler,
      rel = \<lparr>cur = False, in_zone = False, interp_pos = zero_euler\<rparr>,
      output_pose = zero_pose, raw_6dof = zero_pose, protocol_pose = zero_pose,
      nan_once = False, qdebug = [], filter_center_calls = 0, center_captures = 0\<rparr>"

text \<open>
  An environment whose tracker delivers a NaN, one whose tracker delivers the zero pose,
  and a pipeline in the middle of a session: tracking has started, no centering is
  pending, and the last tick published the pose \<open>(1, 2, 3, 4, 5, 6)\<close> for the raw pose
  \<open>(1, 2, 3, 10, 20, 30)\<close>.
\<close>

definition sample_nan_env :: env where
  "sample_nan_env = sample_env_of (Vec6 NaN (Fin 2) (Fin 3) (Fin 10) (Fin 20) (Fin 30))"

definition sample_still_env :: env where
  "sample_still_env = sample_env_of zero_pose"

definition sample_running :: pipeline where
  "sample_running =
     sample_pipeline
       \<lparr>flag_word := set_flag f_center False bits_init, tracking_started := True,
        newpose := Vec6 (Fin 1) (Fin 2) (Fin 3) (Fin 10) (Fin 20) (Fin 30),
        output_pose := Vec6 (Fin 1) (Fin 2) (Fin 3) (Fin 4) (Fin 5) (Fin 6),
        raw_6dof := Vec6 (Fin 1) (Fin 2) (Fin 3) (Fin 10) (Fin 20) (Fin 30),
        protocol_pose := Vec6 (Fin 1) (Fin 2) (Fin 3) (Fin 4) (Fin 5) (Fin 6)\<rparr>"


text \<open>The NaN environment again, with a zero offset of 1 configured on the first axis.\<close>

definition sample_offset_nan_env :: env where
  "sample_offset_nan_env =
     sample_nan_env
       \<lparr>mappings := Vec6 (sample_axis 0 False (Fin 1)) (sample_axis 1 False (Fin 0))
                          (sample_axis 2 False (Fin 0)) (sample_axis 3 False (Fin 0))
                          (sample_axis 4 False (Fin 0)) (sample_axis 5 False (Fin 0))\<rparr>"



section \<open>Properties of the Clamper\<close>

lemma fmod_real_small: "\<bar>a\<bar> < b \<Longrightarrow> fmod_real a b = a"
proof -
  assume h: "\<bar>a\<bar> < b"
  then have b: "0 < b" by linarith
  have "0 \<le> \<bar>a\<bar> / \<bar>b\<bar>" by simp
  moreover have "\<bar>a\<bar> / \<bar>b\<bar> < 1" using h b by simp
  ultimately have "\<lfloor>\<bar>a\<bar> / \<bar>b\<bar>\<rfloor> = 0" by linarith
  then show ?thesis by (simp add: fmod_real_def sgn_real_def)
qed

lemma fmod_real_bounds:
  assumes b: "0 < b"
  shows "\<bar>fmod_real a b\<bar> < b" and "0 \<le> a \<Longrightarrow> 0 \<le> fmod_real a b" and "a \<le> 0 \<Longrightarrow> fmod_real a b \<le> 0"
proof -
  define q where "q = \<lfloor>\<bar>a\<bar> / \<bar>b\<bar>\<rfloor>"
  have q1: "of_int q \<le> \<bar>a\<bar> / b" and q2: "\<bar>a\<bar> / b < of_int q + 1"
    using b by (simp_all add: q_def)
  have r1: "0 \<le> \<bar>a\<bar> - b * of_int q" using q1 b by (simp add: field_simps)
  have r2: "\<bar>a\<bar> - b * of_int q < b" using q2 b by (simp add: field_simps)
  have e: "fmod_real a b = sgn a * (\<bar>a\<bar> - b * of_int q)"
    using b by (simp add: fmod_real_def q_def)
  show "\<bar>fmod_real a b\<bar> < b"
  proof (cases "a = 0")
    case True
    then show ?thesis using b by (simp add: fmod_real_def)
  next
    case False
    then have "\<bar>fmod_real a b\<bar> = \<bar>a\<bar> - b * of_int q"
      using r1 by (simp add: e abs_mult)
    then show ?thesis using r2 by linarith
  qed
  show "0 \<le> a \<Longrightarrow> 0 \<le> fmod_real a b" using r1 by (simp add: e sgn_real_def)
  show "a \<le> 0 \<Longrightarrow> fmod_real a b \<le> 0" using r1 by (simp add: e sgn_real_def)
qed

lemma fmod_real_once_pos: "0 < b \<Longrightarrow> b \<le> a \<Longrightarrow> a < 2 * b \<Longrightarrow> fmod_real a b = a - b"
proof -
  assume b: "0 < b" and l: "b \<le> a" and u: "a < 2 * b"
  have "1 \<le> \<bar>a\<bar> / \<bar>b\<bar>" using b l by simp
  moreover have "\<bar>a\<bar> / \<bar>b\<bar> < 2" using b l u by (simp add: field_simps)
  ultimately have "\<lfloor>\<bar>a\<bar> / \<bar>b\<bar>\<rfloor> = 1" by linarith
  then show ?thesis using b l by (simp add: fmod_real_def sgn_real_def)
qed

lemma fmod_real_once_neg: "0 < b \<Longrightarrow> a \<le> - b \<Longrightarrow> - (2 * b) < a \<Longrightarrow> fmod_real a b = a + b"
proof -
  assume b: "0 < b" and l: "a \<le> - b" and u: "- (2 * b) < a"
  have ab: "\<bar>a\<bar> = - a" "\<bar>b\<bar> = b" using b l by simp_all
  have "1 \<le> \<bar>a\<bar> / \<bar>b\<bar>" unfolding ab using b l by (simp add: field_simps)
  moreover have "\<bar>a\<bar> / \<bar>b\<bar> < 2" unfolding ab using b l u by (simp add: field_simps)
  ultimately have "\<lfloor>\<bar>a\<bar> / \<bar>b\<bar>\<rfloor> = 1" by linarith
  then show ?thesis using b l by (simp add: fmod_real_def sgn_real_def)
qed

lemma clamp_channel_Fin:
  "clamp_channel (Fin v) =
     Fin (let x = fmod_real v 360 in
          if 180 < \<bar>x\<bar> - 1 / 100 then (if x < 0 then x + 360 else x - 360)
          else max (- 180) (min 180 x))"
proof -
  define x where "x = fmod_real v 360"
  have bx: "\<bar>x\<bar> < 360" unfolding x_def by (rule fmod_real_bounds) simp
  show ?thesis
  proof (cases "180 < \<bar>x\<bar> - 1 / 100")
    case False
    then show ?thesis
      by (simp add: clamp_channel_def Let_def x_def [symmetric] dsub_def dgt_def clamp_def)
  next
    case True
    show ?thesis
    proof (cases "x < 0")
      case True
      have "fmod_real (x + - 180) 360 = (x + - 180) + 360"
        using \<open>180 < \<bar>x\<bar> - 1 / 100\<close> True bx by (intro fmod_real_once_neg) simp_all
      then show ?thesis using \<open>180 < \<bar>x\<bar> - 1 / 100\<close> True
        by (simp add: clamp_channel_def Let_def x_def [symmetric] dsub_def dgt_def copysign_def)
    next
      case False
      have "fmod_real (x + 180) 360 = (x + 180) - 360"
        using \<open>180 < \<bar>x\<bar> - 1 / 100\<close> False bx by (intro fmod_real_once_pos) simp_all
      then show ?thesis using \<open>180 < \<bar>x\<bar> - 1 / 100\<close> False
        by (simp add: clamp_channel_def Let_def x_def [symmetric] dsub_def dgt_def copysign_def sgn_real_def)
    qed
  qed
qed

lemma clamp_channel_range:
  "\<exists>y. clamp_channel (Fin v) = Fin y \<and> - 180 \<le> y \<and> y \<le> 180 \<and> (- 180 \<le> v \<and> v \<le> 180 \<longrightarrow> y = v)"
proof -
  define x where "x = fmod_real v 360"
  have bx: "\<bar>x\<bar> < 360" unfolding x_def by (rule fmod_real_bounds) simp
  have id: "- 180 \<le> v \<and> v \<le> 180 \<Longrightarrow> x = v"
    unfolding x_def by (rule fmod_real_small) (simp add: abs_less_iff)
  show ?thesis
    unfolding clamp_channel_Fin Let_def x_def [symmetric]
    using bx id by (auto simp: max_def min_def)
qed


text \<open>
  C3, as the code has it. \<open>clamp_value\<close> leaves the three translation channels as they
  are, for every pose. A finite rotation channel comes out finite and in the closed
  interval \<open>[-180, 180]\<close>, and unchanged when it already lies there; 181 becomes -179, -185
  becomes 175 and 720 becomes 0. The lower bound is attained (see the counterexample
  below), so the interval is closed at -180 too.
\<close>

theorem clamp_value_closed_range:
  "TX (clamp_value p) = TX p \<and> TY (clamp_value p) = TY p \<and> TZ (clamp_value p) = TZ p
   \<and> (\<forall>i x. 3 \<le> i \<and> at6 p i = Some (Fin x) \<longrightarrow>
         (\<exists>y. at6 (clamp_value p) i = Some (Fin y) \<and> - 180 \<le> y \<and> y \<le> 180
               \<and> (- 180 \<le> x \<and> x \<le> 180 \<longrightarrow> y = x)))
   \<and> clamp_value (Vec6 a b c (Fin 181) (Fin (- 185)) (Fin 720))
       = Vec6 a b c (Fin (- 179)) (Fin 175) (Fin 0)"
proof -
  have rot: "\<exists>y. at6 (clamp_value p) i = Some (Fin y) \<and> - 180 \<le> y \<and> y \<le> 180
               \<and> (- 180 \<le> x \<and> x \<le> 180 \<longrightarrow> y = x)"
    if "3 \<le> i \<and> at6 p i = Some (Fin x)" for i x
  proof -
    from that have "(i = 3 \<and> Yaw p = Fin x) \<or> (i = 4 \<and> Pitch p = Fin x) \<or> (i = 5 \<and> Roll p = Fin x)"
      by (auto simp: at6_def split: if_splits)
    then show ?thesis
      using clamp_channel_range [of x] by (auto simp: at6_def clamp_value_def)
  qed
  have ex: "clamp_channel (Fin 181) = Fin (- 179)" "clamp_channel (Fin (- 185)) = Fin 175"
    "clamp_channel (Fin 720) = Fin 0"
    by (simp_all add: clamp_channel_def fmod_real_def dsub_def dgt_def copysign_def clamp_def)
  show ?thesis
    using rot by (simp add: clamp_value_def ex)
qed

theorem clamp_value_closed_range_witness:
  "at6 (Vec6 (Fin 1) (Fin 2) (Fin 3) (Fin 90) (Fin (- 180)) (Fin 181)) 4 = Some (Fin (- 180))
   \<and> clamp_value (Vec6 (Fin 1) (Fin 2) (Fin 3) (Fin 90) (Fin (- 180)) (Fin 181))
       = Vec6 (Fin 1) (Fin 2) (Fin 3) (Fin 90) (Fin (- 180)) (Fin (- 179))"
  using clamp_value_closed_range [of "Vec6 (Fin 1) (Fin 2) (Fin 3) (Fin 90) (Fin (- 180)) (Fin 181)"]
  by (simp add: at6_def clamp_value_def clamp_channel_def fmod_real_def dsub_def dgt_def
      copysign_def clamp_def)

text \<open>
  C3 as the claim states it asks for the half-open interval \<open>(-180, 180]\<close>. A yaw of
  exactly -180 is reduced to itself by \<open>fmod\<close>, fails the test \<open>fabs(x) - 1e-2 > 180\<close>, and
  is returned by \<open>clamp(x, -180, 180)\<close>: the output is -180, outside the half-open
  interval.
\<close>

theorem clamp_value_half_open_counterexample:
  "Yaw (clamp_value (Vec6 (Fin 0) (Fin 0) (Fin 0) (Fin (- 180)) (Fin 0) (Fin 0))) = Fin (- 180)"
  by (simp add: clamp_value_def clamp_channel_def fmod_real_def dsub_def dgt_def clamp_def)


section \<open>Properties of the FlagRegister\<close>

lemma bits_get_bit: "n < 32 \<Longrightarrow> bits_get (2 ^ n) (w :: 32 word) = bit w n"
  by (simp add: bits_get_def and_exp_eq_0_iff_not_bit)

lemma bit_set_word:
  "n < 32 \<Longrightarrow> k < 32 \<Longrightarrow> bit (set_word (2 ^ n) v w) k = (if k = n then v else bit w k)"
  by (cases v) (auto simp add: set_word_def bit_simps)

lemma bit_negate_word:
  "n < 32 \<Longrightarrow> k < 32 \<Longrightarrow> bit (negate_word (2 ^ n) w) k = (if k = n then \<not> bit w k else bit w k)"
  by (auto simp add: negate_word_def bit_simps)

lemma cas_loop_returns: "True \<in> set attempts \<Longrightarrow> cas_loop f attempts w = Some (f w)"
  by (induction attempts) auto

lemma cas_loop_spins: "True \<notin> set attempts \<Longrightarrow> cas_loop f attempts w = None"
  by (induction attempts) auto

lemma flag_mask_exp: "\<exists>n < 32. flag_mask F = 2 ^ n \<and> n = (case F of f_center \<Rightarrow> 0 | f_enabled_h \<Rightarrow> 1 | f_enabled_p \<Rightarrow> 2 | f_zero \<Rightarrow> 3)"
  by (cases F) simp_all

lemma get_set_flag: "get_flag G (set_flag F v w) = (if G = F then v else get_flag G w)"
proof -
  obtain n where n: "n < 32" "flag_mask F = 2 ^ n" "n = (case F of f_center \<Rightarrow> 0 | f_enabled_h \<Rightarrow> 1 | f_enabled_p \<Rightarrow> 2 | f_zero \<Rightarrow> 3)"
    using flag_mask_exp by blast
  obtain k where k: "k < 32" "flag_mask G = 2 ^ k" "k = (case G of f_center \<Rightarrow> 0 | f_enabled_h \<Rightarrow> 1 | f_enabled_p \<Rightarrow> 2 | f_zero \<Rightarrow> 3)"
    using flag_mask_exp by blast
  have "k = n \<longleftrightarrow> G = F" using n(3) k(3) by (cases F; cases G) simp_all
  then show ?thesis
    using n(1,2) k(1,2) by (simp add: get_flag_def set_flag_def bits_get_bit bit_set_word)
qed

lemma get_negate_flag: "get_flag G (negate_flag F w) = (if G = F then \<not> get_flag G w else get_flag G w)"
proof -
  obtain n where n: "n < 32" "flag_mask F = 2 ^ n" "n = (case F of f_center \<Rightarrow> 0 | f_enabled_h \<Rightarrow> 1 | f_enabled_p \<Rightarrow> 2 | f_zero \<Rightarrow> 3)"
    using flag_mask_exp by blast
  obtain k where k: "k < 32" "flag_mask G = 2 ^ k" "k = (case G of f_center \<Rightarrow> 0 | f_enabled_h \<Rightarrow> 1 | f_enabled_p \<Rightarrow> 2 | f_zero \<Rightarrow> 3)"
    using flag_mask_exp by blast
  have "k = n \<longleftrightarrow> G = F" using n(3) k(3) by (cases F; cases G) simp_all
  then show ?thesis
    using n(1,2) k(1,2) by (auto simp add: get_flag_def negate_flag_def bits_get_bit bit_negate_word)
qed

lemma bits_init_flags:
  "get_flag f_center bits_init" "get_flag f_enabled_p bits_init" "get_flag f_enabled_h bits_init"
  "\<not> get_flag f_zero bits_init"
  by (simp_all add: bits_init_def get_set_flag)

text \<open>
  C8. Let \<open>F\<close> and \<open>G\<close> be the masks of two different bits of the word. Whenever the retry
  loop gets a successful exchange, \<open>set(F, v)\<close> returns with a word in which \<open>get(F)\<close> is \<open>v\<close>
  and \<open>get(G)\<close> is what it was; a second \<open>set(F, v')\<close> then makes \<open>get(F)\<close> equal to \<open>v'\<close> (so
  \<open>set(F, true); set(F, false)\<close> ends with \<open>get(F) == false\<close>); and \<open>negate(F)\<close> returns with
  a word in which \<open>get(F)\<close> is flipped and \<open>get(G)\<close> is what it was.
\<close>

theorem flag_register_frame:
  assumes "n < 32" and "k < 32" and "k \<noteq> n"
    and "True \<in> set attempts" and "True \<in> set attempts'"
  shows "(\<exists>w1. bits_set attempts (2 ^ n) v w = Some w1
            \<and> bits_get (2 ^ n) w1 = v \<and> bits_get (2 ^ k) w1 = bits_get (2 ^ k) w
            \<and> (\<exists>w2. bits_set attempts' (2 ^ n) v' w1 = Some w2 \<and> bits_get (2 ^ n) w2 = v'))
       \<and> (\<exists>w1. bits_negate attempts (2 ^ n) w = Some w1
            \<and> bits_get (2 ^ n) w1 = (\<not> bits_get (2 ^ n) w)
            \<and> bits_get (2 ^ k) w1 = bits_get (2 ^ k) w)"
  using assms
  by (simp add: bits_set_def bits_negate_def cas_loop_returns bits_get_bit bit_set_word
      bit_negate_word)

theorem flag_register_frame_witness:
  "bits_set [False, True] 1 True (8 :: 32 word) = Some 9
   \<and> bits_negate [True] 1 (9 :: 32 word) = Some 8"
  using flag_register_frame [of 0 3 "[False, True]" "[True]" True 8 False]
  by (simp add: bits_set_def bits_negate_def set_word_def negate_word_def)


section \<open>Properties of the AxisSelector\<close>

lemma at6_total: "0 \<le> k \<Longrightarrow> k \<le> 5 \<Longrightarrow> \<exists>v. at6 p k = Some v"
  by (simp add: at6_def)

lemma select_channel_Some: "\<exists>v. select_channel raw k = Some v"
  using at6_total [of k raw] by (auto simp: select_channel_def)

lemma at6_cases:
  "at6 p i = Some x \<Longrightarrow>
     (i = 0 \<and> x = TX p) \<or> (i = 1 \<and> x = TY p) \<or> (i = 2 \<and> x = TZ p) \<or>
     (i = 3 \<and> x = Yaw p) \<or> (i = 4 \<and> x = Pitch p) \<or> (i = 5 \<and> x = Roll p)"
  by (simp add: at6_def split: if_splits)

lemma opt6_Some:
  "opt6 (Vec6 (Some a0) (Some a1) (Some a2) (Some a3) (Some a4) (Some a5)) = Some (Vec6 a0 a1 a2 a3 a4 a5)"
  by (simp add: opt6_def)

lemma get_selected_axis_value_eq:
  "get_selected_axis_value m raw =
     Some (raw,
           map_vec6 (\<lambda>axis. if 0 \<le> src (opts axis) \<and> src (opts axis) \<le> 5
                            then (case at6 raw (src (opts axis)) of Some v \<Rightarrow> v | None \<Rightarrow> Fin 0)
                            else Fin 0) m,
           map_vec6 (\<lambda>axis. src (opts axis) = 6) m)"
proof -
  have sc: "select_channel raw k =
      Some (if 0 \<le> k \<and> k \<le> 5 then (case at6 raw k of Some v \<Rightarrow> v | None \<Rightarrow> Fin 0) else Fin 0)" for k
    using at6_total [of k raw] by (auto simp: select_channel_def)
  show ?thesis
    by (cases m) (simp add: get_selected_axis_value_def sc opt6_Some)
qed

lemma at6_map_vec6: "at6 (map_vec6 f p) i = map_option f (at6 p i)"
  by (cases p) (simp add: at6_def)

text \<open>
  C7. \<open>get_selected_axis_value\<close> always returns (no read is out of bounds), its first
  component is the raw pose, and for every channel \<open>i\<close> with axis \<open>m(i)\<close>: the value is the
  raw channel \<open>src\<close> when \<open>src\<close> is in 0..5 and 0 otherwise, and the disabled bit is set
  exactly when \<open>src\<close> is 6.
\<close>

theorem axis_selector:
  "\<exists>value disabled.
     get_selected_axis_value m raw = Some (raw, value, disabled) \<and>
     (\<forall>i axis. at6 m i = Some axis \<longrightarrow>
        at6 value i = (if 0 \<le> src (opts axis) \<and> src (opts axis) \<le> 5
                       then at6 raw (src (opts axis)) else Some (Fin 0))
        \<and> at6 disabled i = Some (src (opts axis) = 6))"
proof -
  have tot: "0 \<le> k \<and> k \<le> 5 \<Longrightarrow> Some (case at6 raw k of Some v \<Rightarrow> v | None \<Rightarrow> Fin 0) = at6 raw k" for k
    using at6_total [of k raw] by auto
  show ?thesis
    unfolding get_selected_axis_value_eq
    by (intro exI conjI allI impI, rule refl) (simp_all add: at6_map_vec6 tot)
qed

theorem axis_selector_witness:
  "at6 sample_sources 1 = Some (TY sample_sources) \<and>
   get_selected_axis_value sample_sources (Vec6 (Fin 1) (Fin 2) (Fin 3) (Fin 4) (Fin 5) (Fin 6))
     = Some (Vec6 (Fin 1) (Fin 2) (Fin 3) (Fin 4) (Fin 5) (Fin 6),
             Vec6 (Fin 6) (Fin 0) (Fin 0) (Fin 1) (Fin 0) (Fin 3),
             Vec6 False True False False False False)"
  using axis_selector [of sample_sources "Vec6 (Fin 1) (Fin 2) (Fin 3) (Fin 4) (Fin 5) (Fin 6)"]
  by (simp add: sample_sources_def sample_axis_def get_selected_axis_value_def
      select_channel_def at6_def opt6_def)

section \<open>Properties of the ReltransEngine\<close>

lemma dsub_Fin: "dsub (Fin a) (Fin b) = Fin (a - b)"
  by (simp add: dsub_def)

text \<open>Facts about the rounding.\<close>

lemma round_even_of_int: "round_even (of_int m) = m"
  by (simp add: round_even_def)

lemma round_even_near: "\<bar>of_int (round_even q) - q\<bar> \<le> 1 / 2"
  unfolding round_even_def Let_def by (auto simp: abs_if) linarith+

lemma round_even_mono_int: "q \<le> of_int N \<Longrightarrow> round_even q \<le> N"
proof -
  assume q: "q \<le> of_int N"
  have "of_int (round_even q) \<le> q + 1 / 2" using round_even_near [of q] by linarith
  then have "(of_int (round_even q) :: real) < of_int N + 1" using q by linarith
  then have "round_even q < N + 1" by linarith
  then show ?thesis by simp
qed

lemma round_even_ge_int: "of_int N \<le> q \<Longrightarrow> N \<le> round_even q"
proof -
  assume q: "of_int N \<le> q"
  have "q - 1 / 2 \<le> of_int (round_even q)" using round_even_near [of q] by linarith
  then have "(of_int N :: real) - 1 < of_int (round_even q)" using q by linarith
  then have "N - 1 < round_even q" by linarith
  then show ?thesis by simp
qed

lemma pow2_mono: "a \<le> b \<Longrightarrow> pow2 a \<le> pow2 b"
  unfolding pow2_def by (rule power_int_increasing) simp_all

lemma pow2_strict: "pow2 a < pow2 b \<Longrightarrow> a < b"
  using pow2_mono [of b a] by (cases "a < b") auto

lemma binade_spec:
  "e \<le> binade n e a \<and> binade n e a < e + 2 ^ n
   \<and> (pow2 e \<le> a \<longrightarrow> pow2 (binade n e a) \<le> a)
   \<and> (e < binade n e a \<longrightarrow> pow2 (binade n e a) \<le> a)
   \<and> (a < pow2 (e + 2 ^ n) \<longrightarrow> a < pow2 (binade n e a + 1))"
proof (induction n arbitrary: e)
  case 0
  show ?case by simp
next
  case (Suc n)
  show ?case
  proof (cases "pow2 (e + 2 ^ n) \<le> a")
    case True
    have pos: "(0::int) < 2 ^ n" by simp
    have eq: "e + 2 ^ n + 2 ^ n = e + 2 ^ Suc n" by simp
    show ?thesis using Suc [of "e + 2 ^ n"] True pos unfolding eq [symmetric]
      by (simp del: power_Suc)
  next
    case False
    have pos: "(0::int) < 2 ^ n" by simp
    have eq: "e + 2 ^ n + 2 ^ n = e + 2 ^ Suc n" by simp
    from False have lt: "a < pow2 (e + 2 ^ n)" by simp
    show ?thesis using Suc [of e] False lt pos unfolding eq [symmetric]
      by (simp del: power_Suc)
  qed
qed

lemma binade_normal:
  assumes "- 1022 \<le> e" and "e \<le> 1024" and "pow2 e \<le> a" and "a < pow2 (e + 1)"
  shows "binade 11 (- 1022) a = e"
proof -
  define b where "b = binade 11 (- 1022) a"
  have s: "- 1022 \<le> b" "b < - 1022 + 2 ^ 11"
    "pow2 (- 1022) \<le> a \<longrightarrow> pow2 b \<le> a"
    "a < pow2 (- 1022 + 2 ^ 11) \<longrightarrow> a < pow2 (b + 1)"
    using binade_spec [of "- 1022" 11 a] unfolding b_def by blast+
  have "pow2 (- 1022) \<le> pow2 e" using assms(1) by (rule pow2_mono)
  then have lo: "pow2 b \<le> a" using s(3) assms(3) by linarith
  have "pow2 (e + 1) \<le> pow2 (- 1022 + 2 ^ 11)"
    using assms(2) by (intro pow2_mono) simp
  then have hi: "a < pow2 (b + 1)" using s(4) assms(4) by linarith
  have "pow2 b < pow2 (e + 1)" using lo assms(4) by linarith
  then have "b < e + 1" by (rule pow2_strict)
  moreover have "pow2 e < pow2 (b + 1)" using hi assms(3) by linarith
  then have "e < b + 1" by (rule pow2_strict)
  ultimately show ?thesis unfolding b_def by linarith
qed

lemma binade_subnormal:
  assumes "a < pow2 (- 1022)"
  shows "binade 11 (- 1022) a = - 1022"
proof -
  define b where "b = binade 11 (- 1022) a"
  have s: "- 1022 \<le> b" "- 1022 < b \<longrightarrow> pow2 b \<le> a"
    using binade_spec [of "- 1022" 11 a] unfolding b_def by blast+
  have "\<not> - 1022 < b"
  proof
    assume "- 1022 < b"
    then have "pow2 b \<le> a" using s(2) by blast
    moreover have "pow2 (- 1022) \<le> pow2 b" using s(1) by (rule pow2_mono)
    ultimately show False using assms by linarith
  qed
  then show ?thesis using s(1) unfolding b_def by linarith
qed


lemma pow2_pos: "0 < pow2 k"
  by (simp add: pow2_def)

lemma pow2_add: "pow2 (a + b) = pow2 a * pow2 b"
  by (simp add: pow2_def power_int_add)

lemma pow2_int: "pow2 (int j) = 2 ^ j"
  by (simp add: pow2_def)

lemma pow2_53: "pow2 (e + 1) = 2 ^ 53 * pow2 (e - 52)"
proof -
  have "e + 1 = int 53 + (e - 52)" by simp
  then have "pow2 (e + 1) = pow2 (int 53) * pow2 (e - 52)" by (simp only: pow2_add)
  then show ?thesis by (simp only: pow2_int)
qed

lemma round_double_unfold:
  "round_double x =
     (if pow2 1024 \<le> of_int (round_even (\<bar>x\<bar> / pow2 (binade 11 (- 1022) \<bar>x\<bar> - 52)))
                          * pow2 (binade 11 (- 1022) \<bar>x\<bar> - 52)
      then (if 0 < x then PInf else MInf)
      else Fin (sgn x * (of_int (round_even (\<bar>x\<bar> / pow2 (binade 11 (- 1022) \<bar>x\<bar> - 52)))
                          * pow2 (binade 11 (- 1022) \<bar>x\<bar> - 52))))"
  by (simp add: round_double_def Let_def)

text \<open>A value \<open>m * 2^k\<close> with a 53-bit \<open>m\<close> and \<open>k\<close> in range is a double: rounding keeps it.\<close>

lemma round_double_exact:
  assumes m: "0 \<le> m" "m < 2 ^ 53" and k: "- 1074 \<le> k"
    and a: "a = of_int m * pow2 k" and top: "a < pow2 1024"
  shows "round_double a = Fin a"
proof -
  define e where "e = binade 11 (- 1022) a"
  define u :: real where "u = pow2 (e - 52)"
  have upos: "0 < u" by (simp add: u_def pow2_pos)
  have a0: "0 \<le> a" using m(1) pow2_pos [of k] by (simp add: a)
  have s: "- 1022 \<le> e" "- 1022 < e \<longrightarrow> pow2 e \<le> a"
    using binade_spec [of "- 1022" 11 a] unfolding e_def by blast+
  have ke: "e - 52 \<le> k"
  proof (cases "- 1022 < e")
    case False
    then show ?thesis using s(1) k by linarith
  next
    case True
    then have "pow2 e \<le> a" using s(2) by blast
    moreover have "a < 2 ^ 53 * pow2 k"
    proof -
      have "(of_int m :: real) < of_int (2 ^ 53)" using m(2) by (simp only: of_int_less_iff)
      then have "of_int m * pow2 k < of_int (2 ^ 53) * pow2 k"
        using pow2_pos [of k] by (simp only: mult_less_cancel_right_pos)
      then show ?thesis unfolding a by simp
    qed
    moreover have "2 ^ 53 * pow2 k = pow2 (int 53 + k)"
      by (simp only: pow2_add pow2_int)
    ultimately have "pow2 e < pow2 (int 53 + k)" by linarith
    then have "e < int 53 + k" by (rule pow2_strict)
    then show ?thesis by linarith
  qed
  define j where "j = nat (k - (e - 52))"
  have kj: "k = int j + (e - 52)" using ke by (simp add: j_def)
  have pk: "pow2 k = 2 ^ j * u"
    unfolding u_def by (subst kj) (simp only: pow2_add pow2_int)
  have q: "a / u = of_int (m * 2 ^ j)"
    unfolding a pk using upos by simp
  have r: "of_int (round_even (a / u)) * u = a"
    unfolding q round_even_of_int unfolding a pk by simp
  have abs: "\<bar>a\<bar> = a" using a0 by simp
  have "sgn a * a = a" using a0 by (cases "a = 0") (simp_all add: sgn_real_def)
  then show ?thesis
    unfolding round_double_unfold abs e_def [symmetric] u_def [symmetric] r
    using top by simp
qed

text \<open>What rounding returns is such a value.\<close>

lemma round_double_range:
  assumes "round_double x = Fin y"
  shows "\<exists>m k. 0 \<le> m \<and> m \<le> 2 ^ 53 \<and> - 1074 \<le> k \<and> \<bar>y\<bar> = of_int m * pow2 k
           \<and> \<bar>y\<bar> < pow2 1024"
proof -
  define a where "a = \<bar>x\<bar>"
  define e where "e = binade 11 (- 1022) a"
  define u :: real where "u = pow2 (e - 52)"
  define n where "n = round_even (a / u)"
  have upos: "0 < u" by (simp add: u_def pow2_pos)
  have a0: "0 \<le> a" by (simp add: a_def)
  have s: "- 1022 \<le> e" "e < - 1022 + 2 ^ 11"
    "a < pow2 (- 1022 + 2 ^ 11) \<longrightarrow> a < pow2 (e + 1)"
    using binade_spec [of "- 1022" 11 a] unfolding e_def by blast+
  have fin: "\<not> pow2 1024 \<le> of_int n * u" and y: "y = sgn x * (of_int n * u)"
    using assms unfolding round_double_unfold a_def [symmetric] e_def [symmetric]
      u_def [symmetric] n_def [symmetric]
    by (auto split: if_splits)
  have n0: "0 \<le> n" unfolding n_def
    by (rule round_even_ge_int) (use a0 upos in simp)
  have near: "a - u / 2 \<le> of_int n * u"
  proof -
    have "a / u - 1 / 2 \<le> of_int n" using round_even_near [of "a / u"] unfolding n_def by linarith
    then have le: "(a / u - 1 / 2) * u \<le> of_int n * u"
      using upos by (simp only: mult_le_cancel_right_pos)
    have "(a / u - 1 / 2) * u = a / u * u - 1 / 2 * u" by (rule left_diff_distrib)
    moreover have "a / u * u = a" using upos by simp
    ultimately have "(a / u - 1 / 2) * u = a - u / 2" by simp
    then show ?thesis using le by simp
  qed
  have small: "a < pow2 (- 1022 + 2 ^ 11)"
  proof (rule ccontr)
    assume "\<not> a < pow2 (- 1022 + 2 ^ 11)"
    then have big: "pow2 1026 \<le> a" by simp
    have "u \<le> pow2 973" unfolding u_def using s(2) by (intro pow2_mono) simp
    moreover have "pow2 1026 = 4 * pow2 1024"
    proof -
      have "(1026::int) = int 2 + 1024" by simp
      then have "pow2 1026 = pow2 (int 2) * pow2 1024" by (simp only: pow2_add)
      then show ?thesis by (simp only: pow2_int) simp
    qed
    moreover have "pow2 973 \<le> pow2 1024" by (rule pow2_mono) simp
    moreover have "0 < pow2 1024" by (rule pow2_pos)
    ultimately have "pow2 1024 \<le> a - u / 2" using big by linarith
    then show False using near fin by linarith
  qed
  then have "a < pow2 (e + 1)" using s(3) by blast
  then have "a < 2 ^ 53 * u" unfolding u_def by (simp only: pow2_53)
  then have "a / u \<le> of_int (2 ^ 53)" using upos by (simp add: field_simps)
  then have n53: "n \<le> 2 ^ 53" unfolding n_def by (rule round_even_mono_int)
  have nu0: "0 \<le> of_int n * u" using n0 upos by simp
  have absy: "\<bar>y\<bar> = of_int n * u"
  proof (cases "x = 0")
    case True
    then have "a = 0" by (simp add: a_def)
    then have "n = 0" by (simp add: n_def round_even_def)
    then show ?thesis by (simp add: y)
  next
    case False
    then have "\<bar>sgn x\<bar> = 1" by (simp add: sgn_real_def)
    moreover have "\<bar>sgn x * (of_int n * u)\<bar> = \<bar>sgn x\<bar> * \<bar>of_int n * u\<bar>" by (rule abs_mult)
    moreover have "\<bar>of_int n * u\<bar> = of_int n * u" using nu0 by (rule abs_of_nonneg)
    ultimately show ?thesis unfolding y by simp
  qed
  have k: "- 1074 \<le> e - 52" using s(1) by simp
  have top: "\<bar>y\<bar> < pow2 1024" using fin absy by simp
  show ?thesis
    using n0 n53 k absy top unfolding u_def by blast
qed

text \<open>Doubling a double is exact, short of overflow.\<close>

lemma round_double_twice:
  assumes "round_double x = Fin y" and "\<bar>y\<bar> + \<bar>y\<bar> < pow2 1024"
  shows "round_double (\<bar>y\<bar> + \<bar>y\<bar>) = Fin (\<bar>y\<bar> + \<bar>y\<bar>)"
proof -
  obtain m k where mk: "0 \<le> m" "m \<le> 2 ^ 53" "- 1074 \<le> k" "\<bar>y\<bar> = of_int m * pow2 k"
    using round_double_range [OF assms(1)] by blast
  have p1: "pow2 (k + 1) = 2 * pow2 k"
  proof -
    have "k + 1 = int 1 + k" by simp
    then have "pow2 (k + 1) = pow2 (int 1) * pow2 k" by (simp only: pow2_add)
    then show ?thesis by (simp only: pow2_int) simp
  qed
  have p2: "pow2 (k + 2) = 4 * pow2 k"
  proof -
    have "k + 2 = int 2 + k" by simp
    then have "pow2 (k + 2) = pow2 (int 2) * pow2 k" by (simp only: pow2_add)
    then show ?thesis by (simp only: pow2_int) simp
  qed
  show ?thesis
  proof (cases "m < 2 ^ 53")
    case True
    have "\<bar>y\<bar> + \<bar>y\<bar> = of_int m * pow2 (k + 1)"
      unfolding mk(4) p1 by simp
    then show ?thesis
      using mk(1,3) True assms(2) by (intro round_double_exact [of m "k + 1"]) simp_all
  next
    case False
    then have m: "m = 2 ^ 53" using mk(2) by simp
    have "\<bar>y\<bar> + \<bar>y\<bar> = of_int (2 ^ 52) * pow2 (k + 2)"
      unfolding mk(4) m p2 by simp
    then show ?thesis
      using mk(3) assms(2) by (intro round_double_exact [of "2 ^ 52" "k + 2"]) simp_all
  qed
qed

text \<open>Rounding once the binade is known.\<close>

lemma round_double_normal:
  assumes "- 1022 \<le> e" and "e \<le> 1022" and "pow2 e \<le> \<bar>x\<bar>" and "\<bar>x\<bar> < pow2 (e + 1)"
  shows "round_double x
     = Fin (sgn x * (of_int (round_even (\<bar>x\<bar> / pow2 (e - 52))) * pow2 (e - 52)))"
proof -
  define u :: real where "u = pow2 (e - 52)"
  have upos: "0 < u" by (simp add: u_def pow2_pos)
  have b: "binade 11 (- 1022) \<bar>x\<bar> = e"
    using assms by (intro binade_normal) simp_all
  have p: "pow2 (e + 1) = 2 ^ 53 * u" unfolding u_def by (rule pow2_53)
  then have "\<bar>x\<bar> / u \<le> of_int (2 ^ 53)" using assms(4) upos by (simp add: field_simps)
  then have "round_even (\<bar>x\<bar> / u) \<le> 2 ^ 53" by (rule round_even_mono_int)
  then have "(of_int (round_even (\<bar>x\<bar> / u)) :: real) \<le> of_int (2 ^ 53)"
    by (simp only: of_int_le_iff)
  then have "of_int (round_even (\<bar>x\<bar> / u)) * u \<le> 2 ^ 53 * u"
    using upos by simp
  also have "2 ^ 53 * u = pow2 (e + 1)" using p by simp
  also have "\<dots> \<le> pow2 1023" using assms(2) by (intro pow2_mono) simp
  also have "\<dots> < pow2 1024"
  proof -
    have "(1024::int) = int 1 + 1023" by simp
    then have "pow2 1024 = pow2 (int 1) * pow2 1023" by (simp only: pow2_add)
    then have "pow2 1024 = 2 * pow2 1023" by (simp only: pow2_int) simp
    then show ?thesis using pow2_pos [of 1023] by linarith
  qed
  finally have "\<not> pow2 1024 \<le> of_int (round_even (\<bar>x\<bar> / u)) * u" by simp
  then show ?thesis
    unfolding round_double_unfold b u_def [symmetric] by simp
qed

text \<open>A real of \<open>2^1024\<close> or more rounds to the infinity.\<close>

lemma round_double_overflow:
  assumes "pow2 1024 \<le> x"
  shows "round_double x = PInf"
proof -
  define e where "e = binade 11 (- 1022) x"
  define u :: real where "u = pow2 (e - 52)"
  define n where "n = round_even (x / u)"
  have upos: "0 < u" by (simp add: u_def pow2_pos)
  have x0: "0 < x" using assms pow2_pos [of 1024] by linarith
  have ax: "\<bar>x\<bar> = x" using x0 by simp
  have s: "e < - 1022 + 2 ^ 11" "pow2 (- 1022) \<le> x \<longrightarrow> pow2 e \<le> x"
    "x < pow2 (- 1022 + 2 ^ 11) \<longrightarrow> x < pow2 (e + 1)"
    using binade_spec [of "- 1022" 11 x] unfolding e_def by blast+
  have "pow2 (- 1022) \<le> pow2 1024" by (rule pow2_mono) simp
  then have lo: "pow2 e \<le> x" using s(2) assms by linarith
  have "pow2 1024 \<le> of_int n * u"
  proof (cases "x < pow2 (- 1022 + 2 ^ 11)")
    case True
    then have "x < pow2 (e + 1)" using s(3) by blast
    then have "pow2 1024 < pow2 (e + 1)" using assms by linarith
    then have "1024 < e + 1" by (rule pow2_strict)
    then have "pow2 1024 \<le> pow2 e" by (intro pow2_mono) simp
    moreover have "pow2 e = 2 ^ 52 * u"
    proof -
      have "pow2 (int 52 + (e - 52)) = 2 ^ 52 * pow2 (e - 52)"
        by (simp only: pow2_add pow2_int)
      then show ?thesis unfolding u_def by simp
    qed
    moreover have "of_int (2 ^ 52) \<le> x / u"
      using lo upos unfolding \<open>pow2 e = 2 ^ 52 * u\<close> by (simp add: field_simps)
    then have "2 ^ 52 \<le> n" unfolding n_def by (rule round_even_ge_int)
    then have "(of_int (2 ^ 52) :: real) \<le> of_int n" by (simp only: of_int_le_iff)
    then have "2 ^ 52 * u \<le> of_int n * u" using upos by simp
    ultimately show ?thesis by linarith
  next
    case False
    then have big: "pow2 1026 \<le> x" by simp
    have "x / u - 1 / 2 \<le> of_int n" using round_even_near [of "x / u"] unfolding n_def by linarith
    then have le: "(x / u - 1 / 2) * u \<le> of_int n * u"
      using upos by (simp only: mult_le_cancel_right_pos)
    have "(x / u - 1 / 2) * u = x / u * u - 1 / 2 * u" by (rule left_diff_distrib)
    moreover have "x / u * u = x" using upos by simp
    ultimately have "(x / u - 1 / 2) * u = x - u / 2" by simp
    then have near: "x - u / 2 \<le> of_int n * u" using le by simp
    have "u \<le> pow2 973" unfolding u_def using s(1) by (intro pow2_mono) simp
    moreover have "pow2 1026 = 4 * pow2 1024"
    proof -
      have "(1026::int) = int 2 + 1024" by simp
      then have "pow2 1026 = pow2 (int 2) * pow2 1024" by (simp only: pow2_add)
      then show ?thesis by (simp only: pow2_int) simp
    qed
    moreover have "pow2 973 \<le> pow2 1024" by (rule pow2_mono) simp
    moreover have "0 < pow2 1024" by (rule pow2_pos)
    ultimately show ?thesis using big near by linarith
  qed
  then show ?thesis
    unfolding round_double_unfold ax e_def [symmetric] u_def [symmetric] n_def [symmetric]
    using x0 by simp
qed

text \<open>
  The sum \<open>t + t + t\<close> of line 119, with its two roundings, is the rounded \<open>3 * t\<close> for every
  rounded \<open>t\<close>: doubling is exact, and on overflow both sides are the infinity.
\<close>

lemma triple_fabs:
  "fl (dadd (fl (dadd (fabs (fl d)) (fabs (fl d)))) (fabs (fl d))) = fl (dmul (Fin 3) (fabs (fl d)))"
proof (cases "fl d")
  case (Fin y)
  then obtain x where d: "d = Fin x" and r: "round_double x = Fin y"
    by (cases d) simp_all
  show ?thesis
  proof (cases "\<bar>y\<bar> + \<bar>y\<bar> < pow2 1024")
    case True
    have "round_double (\<bar>y\<bar> + \<bar>y\<bar>) = Fin (\<bar>y\<bar> + \<bar>y\<bar>)"
      using r True by (rule round_double_twice)
    moreover have "\<bar>y\<bar> + \<bar>y\<bar> + \<bar>y\<bar> = 3 * \<bar>y\<bar>" by simp
    ultimately show ?thesis by (simp add: Fin)
  next
    case False
    then have o: "pow2 1024 \<le> \<bar>y\<bar> + \<bar>y\<bar>" by simp
    then have "pow2 1024 \<le> 3 * \<bar>y\<bar>" by linarith
    then have "round_double (3 * \<bar>y\<bar>) = PInf" by (rule round_double_overflow)
    moreover have "round_double (\<bar>y\<bar> + \<bar>y\<bar>) = PInf" using o by (rule round_double_overflow)
    ultimately show ?thesis by (simp add: Fin)
  qed
qed simp_all

text \<open>The doubles that the literals \<open>.05\<close> and \<open>.1\<close> denote, and three more roundings.\<close>

lemma double_literals:
  "round_double (1 / 20) = Fin (3602879701896397 / 72057594037927936)"
  "round_double (1 / 10) = Fin (3602879701896397 / 36028797018963968)"
  "round_double (3602879701896397 / 36028797018963968) = Fin (3602879701896397 / 36028797018963968)"
  "round_double (4803839602528529 / 288230376151711744) = Fin (4803839602528529 / 288230376151711744)"
  "round_double (14411518807585587 / 288230376151711744)
     = Fin (3602879701896397 / 72057594037927936)"
  "round_double (1 / 128) = Fin (1 / 128)"
  "round_double (3 / 128) = Fin (3 / 128)"
  by (simp_all add: round_double_normal [of "- 5"] round_double_normal [of "- 4"]
      round_double_normal [of "- 6"] round_double_normal [of "- 7"] round_even_def pow2_def)

lemma round_double_small_ints:
  "round_double 0 = Fin 0" "round_double 1 = Fin 1" "round_double 2 = Fin 2"
  "round_double 3 = Fin 3"
proof -
  show "round_double 0 = Fin 0"
    using round_double_exact [of 0 0 0] pow2_pos [of 1024] by simp
  have one: "(1::real) < pow2 1024" "(2::real) < pow2 1024" "(3::real) < pow2 1024"
  proof -
    have "pow2 2 \<le> pow2 1024" by (rule pow2_mono) simp
    moreover have "pow2 2 = 4" by (simp add: pow2_def)
    ultimately show "(1::real) < pow2 1024" "(2::real) < pow2 1024" "(3::real) < pow2 1024"
      by linarith+
  qed
  have p0: "pow2 0 = 1" by (simp add: pow2_def)
  show "round_double 1 = Fin 1" using round_double_exact [of 1 0 1] one p0 by simp
  show "round_double 2 = Fin 2" using round_double_exact [of 2 0 2] one p0 by simp
  show "round_double 3 = Fin 3" using round_double_exact [of 3 0 3] one p0 by simp
qed

lemma e0_interp_blend:
  "e0 (interp_blend dt ipos rl) =
     fl (dadd (fl (dmul (e0 ipos) (fl (dsub (Fin 1) (interp_alpha dt)))))
              (fl (dmul (e0 rl) (interp_alpha dt))))"
  by (cases ipos; cases rl) (simp add: interp_blend_def fl3_def vadd_def scale_right_def)

lemma cur_apply_pipeline:
  assumes "state \<noteq> reltrans_disabled" and "cur r \<or> in_zone r \<noteq> tcomp_in_zone state value"
  shows "cur (snd (apply_pipeline to_rmat dt state value disable r)) =
     (\<not> dlt (fl (dmul (Fin 3) (fabs (fl (dsub (e0 (rotated_rel to_rmat state value disable))
        (e0 (interp_blend dt (interp_pos r) (rotated_rel to_rmat state value disable))))))))
       (fl (Fin (5 / 100))))"
proof -
  have t: "e0 (fl3 (vsub a b)) = fl (dsub (e0 a) (e0 b))" for a b
    by (cases a; cases b) (simp add: fl3_def vsub_def)
  show ?thesis
    using assms by (auto simp add: apply_pipeline_def Let_def t triple_fabs)
qed

text \<open>
  C2. When the mode is not disabled and the interpolation is active at line 105 (\<open>cur\<close> was
  set, or the zone changed in this call), let \<open>rl\<close> be the first component of the rotated
  translation, \<open>ipos\<close> the first component of the new \<open>interp_pos\<close>, computed in binary64 as
  \<open>interp_pos(0) * (1 - alpha) + rl * alpha\<close>, and \<open>t\<close> the absolute value of the double
  \<open>rl - ipos\<close>. The residual of line 119, \<open>t + t + t\<close> in binary64, is three times \<open>t\<close> rounded
  to a double; no other component of either vector occurs in it. \<open>cur\<close> is left true
  exactly when that residual is not below the double \<open>.05\<close>. For a finite \<open>t\<close> the residual
  is the double nearest to \<open>3 * t\<close> and the threshold is \<open>3602879701896397 / 2^56\<close>.
\<close>

theorem reltrans_residual:
  assumes "state \<noteq> reltrans_disabled" and "cur r \<or> in_zone r \<noteq> tcomp_in_zone state value"
  shows "let rl = e0 (rotated_rel to_rmat state value disable);
             alpha = interp_alpha dt;
             ipos = fl (dadd (fl (dmul (e0 (interp_pos r)) (fl (dsub (Fin 1) alpha))))
                             (fl (dmul rl alpha)));
             t = fabs (fl (dsub rl ipos));
             residual = fl (dadd (fl (dadd t t)) t);
             r1 = snd (apply_pipeline to_rmat dt state value disable r)
         in e0 (interp_pos r1) = ipos
            \<and> residual = fl (dmul (Fin 3) t)
            \<and> cur r1 = (\<not> dlt residual (fl (Fin (5 / 100))))
            \<and> (\<forall>a. t = Fin a \<longrightarrow>
                 cur r1 = (\<not> dlt (round_double (3 * a))
                              (Fin (3602879701896397 / 72057594037927936))))"
proof -
  have ip: "e0 (interp_pos (snd (apply_pipeline to_rmat dt state value disable r)))
      = e0 (interp_blend dt (interp_pos r) (rotated_rel to_rmat state value disable))"
    using assms by (auto simp add: apply_pipeline_def Let_def)
  show ?thesis
    unfolding Let_def cur_apply_pipeline [OF assms] ip e0_interp_blend triple_fabs
    by (auto simp add: double_literals)
qed

text \<open>
  Three calls with the identity as rotation, \<open>dt = 0\<close> (so \<open>alpha = 0\<close> and \<open>interp_pos\<close>
  stays), and \<open>interp_pos = 0\<close>. With a first component of 1 the interpolation goes on.
  With \<open>0x1.1111111111111p-6\<close> (the double below \<open>1/60\<close>) it goes on too: three times it is
  below \<open>1/20\<close> as a real, but rounds to the double \<open>.05\<close> itself, which is not below the
  threshold. With \<open>1/128\<close> it stops, whatever the other two components are.
\<close>

theorem reltrans_residual_witness:
  "cur (snd (apply_pipeline (\<lambda>_. eye) (Fin 0) reltrans_enabled
               (Vec6 (Fin 1) (Fin 2) (Fin 3) (Fin 0) (Fin 0) (Fin 0))
               (Vec6 False False False False False False)
               \<lparr>cur = True, in_zone = True, interp_pos = zero_euler\<rparr>))
   \<and> cur (snd (apply_pipeline (\<lambda>_. eye) (Fin 0) reltrans_enabled
               (Vec6 (Fin (4803839602528529 / 288230376151711744)) (Fin 2) (Fin 3)
                     (Fin 0) (Fin 0) (Fin 0))
               (Vec6 False False False False False False)
               \<lparr>cur = True, in_zone = True, interp_pos = zero_euler\<rparr>))
   \<and> 3 * (4803839602528529 / 288230376151711744) < (1 / 20 :: real)
   \<and> \<not> cur (snd (apply_pipeline (\<lambda>_. eye) (Fin 0) reltrans_enabled
               (Vec6 (Fin (1 / 128)) (Fin 2) (Fin 3) (Fin 0) (Fin 0) (Fin 0))
               (Vec6 False False False False False False)
               \<lparr>cur = True, in_zone = True, interp_pos = zero_euler\<rparr>))"
proof -
  have alpha: "interp_alpha (Fin 0) = Fin 0"
    by (simp add: interp_alpha_def double_literals round_double_small_ints)
  have rl: "e0 (rotated_rel (\<lambda>_. eye) reltrans_enabled (Vec6 (Fin x) (Fin 2) (Fin 3) (Fin 0) (Fin 0) (Fin 0))
              (Vec6 False False False False False False)) = Fin x" for x
    by (simp add: rotated_rel_def tcomp_in_zone_def rotate_def mat_vec_def dot3_def eye_def
        translation_of_def)
  show ?thesis
    using reltrans_residual [of reltrans_enabled "\<lparr>cur = True, in_zone = True, interp_pos = zero_euler\<rparr>"
       "Vec6 (Fin 1) (Fin 2) (Fin 3) (Fin 0) (Fin 0) (Fin 0)" "\<lambda>_. eye"
       "Vec6 False False False False False False" "Fin 0"]
      reltrans_residual [of reltrans_enabled "\<lparr>cur = True, in_zone = True, interp_pos = zero_euler\<rparr>"
       "Vec6 (Fin (4803839602528529 / 288230376151711744)) (Fin 2) (Fin 3) (Fin 0) (Fin 0) (Fin 0)"
       "\<lambda>_. eye" "Vec6 False False False False False False" "Fin 0"]
      reltrans_residual [of reltrans_enabled "\<lparr>cur = True, in_zone = True, interp_pos = zero_euler\<rparr>"
       "Vec6 (Fin (1 / 128)) (Fin 2) (Fin 3) (Fin 0) (Fin 0) (Fin 0)" "\<lambda>_. eye"
       "Vec6 False False False False False False" "Fin 0"]
    by (simp add: Let_def rl alpha tcomp_in_zone_def zero_euler_def dsub_def
        round_double_small_ints double_literals)
qed

text \<open>
  C5. With the mode \<open>reltrans_disabled\<close>, \<open>apply_pipeline\<close> returns the pose it was given,
  whatever the pose and the disable mask, and leaves \<open>cur\<close> (interpolating) and \<open>in_zone\<close>
  false.
\<close>

theorem apply_pipeline_disabled:
  "fst (apply_pipeline to_rmat dt reltrans_disabled value disable r) = value
   \<and> cur (snd (apply_pipeline to_rmat dt reltrans_disabled value disable r)) = False
   \<and> in_zone (snd (apply_pipeline to_rmat dt reltrans_disabled value disable r)) = False"
  by (simp add: apply_pipeline_def)



section \<open>Properties of the CenteringEngine\<close>

lemma finite_cases: "\<not> nonfinite c \<Longrightarrow> \<exists>a. c = Fin a"
  by (cases c) simp_all

lemma dot3_zero:
  assumes "\<forall>c \<in> set_vec3 row. \<not> nonfinite c"
  shows "dot3 row (Vec3 (Fin 0) (Fin 0) (Fin 0)) = Fin 0"
proof -
  obtain a b c where "row = Vec3 (Fin a) (Fin b) (Fin c)"
    using assms by (cases row) (auto dest!: finite_cases)
  then show ?thesis by (simp add: dot3_def)
qed

lemma rotate_zero:
  assumes "\<forall>row \<in> set_vec3 R. \<forall>c \<in> set_vec3 row. \<not> nonfinite c"
  shows "rotate (transpose_rmat R) zero_euler (Vec3 False False False) = zero_euler"
proof -
  obtain r0 r1 r2 where R: "R = Vec3 r0 r1 r2" by (cases R)
  obtain a0 a1 a2 b0 b1 b2 c0 c1 c2 where
    "r0 = Vec3 (Fin a0) (Fin a1) (Fin a2)" "r1 = Vec3 (Fin b0) (Fin b1) (Fin b2)"
    "r2 = Vec3 (Fin c0) (Fin c1) (Fin c2)"
    using assms unfolding R by (cases r0; cases r1; cases r2) (auto dest!: finite_cases)
  then show ?thesis
    by (simp add: R rotate_def zero_euler_def transpose_rmat_def mat_vec_def dot3_def)
qed

lemma scale_left_zero: "scale_left (Fin k) zero_euler = zero_euler"
  by (simp add: scale_left_def zero_euler_def)

lemma invert_if_zero: "invert_if axis (Fin 0) = Fin 0"
  by (simp add: invert_if_def)

text \<open>
  C4. Let the center flag be set and \<open>own_center_logic\<close> be false, let the translation of
  the pose be finite, and let the conversions behave as rotations do on this pose:
  \<open>euler_to_rmat\<close> gives a matrix whose product with its transpose is the identity for the
  scaled angles and a finite matrix for the unscaled ones, and \<open>rmat_to_euler\<close> gives zero
  angles for the identity; let \<open>c_mult\<close> be finite. Then \<open>apply_center\<close> right after
  \<open>maybe_set_center_pose\<close>, on the same pose, returns the zero pose: exactly zero in this
  arithmetic without rounding, for any setting of the invert flags.
\<close>

theorem center_then_apply_center:
  assumes "get_flag f_center (flag_word s)"
    and "\<not> nonfinite (TX value) \<and> \<not> nonfinite (TY value) \<and> \<not> nonfinite (TZ value)"
    and "c_mult e = Fin k"
    and "mat_mul (euler_to_rmat e (scale_left (c_div e) (scale_left d2r (rotation_of value))))
           (transpose_rmat (euler_to_rmat e (scale_left (c_div e) (scale_left d2r (rotation_of value)))))
         = eye"
    and "\<forall>row \<in> set_vec3 (euler_to_rmat e (scale_left d2r (rotation_of value))).
           \<forall>c \<in> set_vec3 row. \<not> nonfinite c"
    and "rmat_to_euler e eye = zero_euler"
  shows "apply_center e (maybe_set_center_pose e value False s) value = zero_pose"
proof -
  let ?s = "maybe_set_center_pose e value False s"
  obtain x y z where v: "TX value = Fin x" "TY value = Fin y" "TZ value = Fin z"
    using assms(2) by (auto dest!: finite_cases)
  have sc: "rot_center (scaled_rotation ?s) = transpose_rmat (rotation (scaled_rotation ?s))"
    and sr: "rotation (scaled_rotation ?s)
       = euler_to_rmat e (scale_left (c_div e) (scale_left d2r (rotation_of value)))"
    and rc: "rot_center (real_rotation ?s)
       = transpose_rmat (euler_to_rmat e (scale_left d2r (rotation_of value)))"
    and tc: "t_center ?s = translation_of value"
    using assms(1) by (simp_all add: maybe_set_center_pose_def Let_def split: option.splits)
  have pos: "vsub (translation_of value) (t_center ?s) = zero_euler"
    by (simp add: tc vsub_def translation_of_def v dsub_Fin zero_euler_def)
  have rot: "mat_mul (rotation (scaled_rotation ?s)) (rot_center (scaled_rotation ?s)) = eye"
    by (simp add: sc sr assms(4))
  have r2dk: "dmul r2d (c_mult e) = Fin (180 / M_PI * k)"
    by (simp add: r2d_def assms(3))
  show ?thesis
    unfolding apply_center_def Let_def pos rot rc assms(6) r2dk scale_left_zero
      rotate_zero [OF assms(5)]
    by (simp add: zero_euler_def invert_if_zero zero_pose_def)
qed

theorem center_then_apply_center_witness:
  "get_flag f_center (flag_word sample_pipeline)
   \<and> apply_center sample_env
       (maybe_set_center_pose sample_env (Vec6 (Fin 1) (Fin 2) (Fin 3) (Fin 10) (Fin 20) (Fin 30))
          False sample_pipeline)
       (Vec6 (Fin 1) (Fin 2) (Fin 3) (Fin 10) (Fin 20) (Fin 30)) = zero_pose"
proof -
  let ?v = "Vec6 (Fin 1) (Fin 2) (Fin 3) (Fin 10) (Fin 20) (Fin 30)"
  have f: "get_flag f_center (flag_word sample_pipeline)"
    by (simp add: sample_pipeline_def bits_init_def get_set_flag)
  have t: "\<not> nonfinite (TX ?v) \<and> \<not> nonfinite (TY ?v) \<and> \<not> nonfinite (TZ ?v)"
    by simp
  have k: "c_mult sample_env = Fin 16"
    by (simp add: sample_env_def sample_env_of_def)
  have to_rmat: "euler_to_rmat sample_env = (\<lambda>_. quarter_turn)"
    by (simp add: sample_env_def sample_env_of_def)
  have o: "mat_mul (euler_to_rmat sample_env (scale_left (c_div sample_env) (scale_left d2r (rotation_of ?v))))
             (transpose_rmat (euler_to_rmat sample_env
                (scale_left (c_div sample_env) (scale_left d2r (rotation_of ?v))))) = eye"
    unfolding to_rmat
    by (simp add: quarter_turn_def mat_mul_def transpose_rmat_def dot3_def eye_def)
  have fin: "\<forall>row \<in> set_vec3 (euler_to_rmat sample_env (scale_left d2r (rotation_of ?v))).
           \<forall>c \<in> set_vec3 row. \<not> nonfinite c"
    unfolding to_rmat by (simp add: quarter_turn_def)
  have z: "rmat_to_euler sample_env eye = zero_euler"
    by (simp add: sample_env_def sample_env_of_def)
  show ?thesis
    using f center_then_apply_center [OF f t k o fin z] by simp
qed


section \<open>Properties of the Scheduler\<close>

lemma count_ms_nonneg: "0 \<le> d \<Longrightarrow> count_ms d = d div 1000000"
  by (cases "d = 0") (simp_all add: count_ms_def)

lemma clamp_ns_bounds: "lo \<le> hi \<Longrightarrow> lo \<le> clamp_ns x lo hi \<and> clamp_ns x lo hi \<le> hi"
  by (simp add: clamp_ns_def)

lemma sleep_time_ms_bounds: "0 \<le> sleep_time_ms b \<and> sleep_time_ms b \<le> 10"
proof -
  define d where "d = clamp_ns (const_sleep_ms - b) 0 (ms 10)"
  have d: "0 \<le> d" "d \<le> 10000000"
    using clamp_ns_bounds [of 0 "ms 10" "const_sleep_ms - b"] by (simp_all add: d_def ms_def)
  have "sleep_time_ms b = d div 1000000"
    using d(1) by (simp add: sleep_time_ms_def d_def [symmetric] count_ms_nonneg)
  moreover have "0 \<le> d div 1000000" using d(1) by simp
  moreover have "d div 1000000 \<le> 10" using d(2) by linarith
  ultimately show ?thesis by simp
qed



section \<open>Properties of the tick\<close>

lemma emit_fields:
  "flag_word (emit_nan_check_msg t l s) = flag_word s"
  "tracking_started (emit_nan_check_msg t l s) = tracking_started s"
  "newpose (emit_nan_check_msg t l s) = newpose s"
  "output_pose (emit_nan_check_msg t l s) = output_pose s"
  "raw_6dof (emit_nan_check_msg t l s) = raw_6dof s"
  "center_captures (emit_nan_check_msg t l s) = center_captures s"
  "filter_center_calls (emit_nan_check_msg t l s) = filter_center_calls s"
  "nan_once (emit_nan_check_msg t l s) = True"
  "qdebug (emit_nan_check_msg t l s) = (if nan_once s then qdebug s else qdebug s @ [(t, l)])"
  by (simp_all add: emit_nan_check_msg_def)

lemma maybe_nan_fst: "fst (maybe_nan t l v s) = is_nan v"
  by (simp add: maybe_nan_def)

lemma maybe_nan_snd: "snd (maybe_nan t l v s) = (if is_nan v then emit_nan_check_msg t l s else s)"
  by (simp add: maybe_nan_def)

lemma logic_raw_fst: "fst (logic_raw e s) = is_nan (data (pTracker (libs e)))"
  by (simp add: logic_raw_def Let_def split_def maybe_nan_fst)

lemma logic_raw_fields:
  "flag_word (snd (logic_raw e s)) = flag_word s"
  "tracking_started (snd (logic_raw e s)) = tracking_started s"
  "output_pose (snd (logic_raw e s)) = output_pose s"
  "raw_6dof (snd (logic_raw e s)) = raw_6dof s"
  "center_captures (snd (logic_raw e s)) = center_captures s"
  "filter_center_calls (snd (logic_raw e s)) = filter_center_calls s"
  by (simp_all add: logic_raw_def Let_def split_def maybe_nan_fst maybe_nan_snd emit_fields)


lemma logic_raw_msgs:
  "nan_once (snd (logic_raw e s)) = (nan_once s \<or> is_nan (data (pTracker (libs e))))"
  "qdebug (snd (logic_raw e s)) =
     (if is_nan (data (pTracker (libs e))) \<and> \<not> nan_once s then qdebug s @ [(''tmp'', 428)]
      else qdebug s)"
  by (simp_all add: logic_raw_def Let_def split_def maybe_nan_fst maybe_nan_snd emit_fields)

lemma enable_fields:
  "output_pose (maybe_enable_center_on_tracking_started e s) = output_pose s"
  "raw_6dof (maybe_enable_center_on_tracking_started e s) = raw_6dof s"
  "newpose (maybe_enable_center_on_tracking_started e s) = newpose s"
  "center_captures (maybe_enable_center_on_tracking_started e s) = center_captures s"
  "filter_center_calls (maybe_enable_center_on_tracking_started e s) = filter_center_calls s"
  "nan_once (maybe_enable_center_on_tracking_started e s) = nan_once s"
  "qdebug (maybe_enable_center_on_tracking_started e s) = qdebug s"
  "tracking_started (maybe_enable_center_on_tracking_started e s)
     = (tracking_started s \<or> any_nonzero (newpose s))"
  by (simp_all add: maybe_enable_center_on_tracking_started_def Let_def)

lemma enable_flags:
  "get_flag F (flag_word (maybe_enable_center_on_tracking_started e s)) =
     (if F = f_center \<and> \<not> tracking_started s \<and> any_nonzero (newpose s)
          \<and> center_at_startup (settings e)
      then True else get_flag F (flag_word s))"
  by (simp add: maybe_enable_center_on_tracking_started_def Let_def get_set_flag)

lemma set_center_pose_fields:
  "flag_word (maybe_set_center_pose e v own s) = flag_word s"
  "tracking_started (maybe_set_center_pose e v own s) = tracking_started s"
  "newpose (maybe_set_center_pose e v own s) = newpose s"
  "output_pose (maybe_set_center_pose e v own s) = output_pose s"
  "raw_6dof (maybe_set_center_pose e v own s) = raw_6dof s"
  "nan_once (maybe_set_center_pose e v own s) = nan_once s"
  "qdebug (maybe_set_center_pose e v own s) = qdebug s"
  "center_captures (maybe_set_center_pose e v own s)
     = center_captures s + (if get_flag f_center (flag_word s) then 1 else 0)"
  "filter_center_calls (maybe_set_center_pose e v own s)
     = filter_center_calls s
       + (if get_flag f_center (flag_word s) \<and> pFilter (libs e) \<noteq> None then 1 else 0)"
  by (simp_all add: maybe_set_center_pose_def Let_def split: option.splits)

lemma apply_reltrans_fields:
  "flag_word (snd (apply_reltrans e v d s)) = flag_word s"
  "tracking_started (snd (apply_reltrans e v d s)) = tracking_started s"
  "newpose (snd (apply_reltrans e v d s)) = newpose s"
  "output_pose (snd (apply_reltrans e v d s)) = output_pose s"
  "raw_6dof (snd (apply_reltrans e v d s)) = raw_6dof s"
  "nan_once (snd (apply_reltrans e v d s)) = nan_once s"
  "qdebug (snd (apply_reltrans e v d s)) = qdebug s"
  "center_captures (snd (apply_reltrans e v d s)) = center_captures s"
  "filter_center_calls (snd (apply_reltrans e v d s)) = filter_center_calls s"
  by (simp_all add: apply_reltrans_def Let_def split_def)


lemma logic_filtered_state:
  "snd (snd (logic_filtered e own v s)) =
     (let s2 = maybe_set_center_pose e (clamp_value v) own
                 (maybe_enable_center_on_tracking_started e s)
      in if fst (logic_filtered e own v s) then emit_nan_check_msg ''value'' 451 s2 else s2)"
  by (simp add: logic_filtered_def Let_def split_def maybe_nan_def)

lemma logic_filtered_fields:
  "output_pose (snd (snd (logic_filtered e own v s))) = output_pose s"
  "raw_6dof (snd (snd (logic_filtered e own v s))) = raw_6dof s"
  "newpose (snd (snd (logic_filtered e own v s))) = newpose s"
  "tracking_started (snd (snd (logic_filtered e own v s)))
     = (tracking_started s \<or> any_nonzero (newpose s))"
  "get_flag F (flag_word (snd (snd (logic_filtered e own v s)))) =
     (if F = f_center \<and> \<not> tracking_started s \<and> any_nonzero (newpose s)
          \<and> center_at_startup (settings e)
      then True else get_flag F (flag_word s))"
  "center_captures (snd (snd (logic_filtered e own v s))) =
     center_captures s +
       (if get_flag f_center (flag_word s) \<or> (\<not> tracking_started s \<and> any_nonzero (newpose s)
          \<and> center_at_startup (settings e)) then 1 else 0)"
  "filter_center_calls (snd (snd (logic_filtered e own v s))) =
     filter_center_calls s +
       (if (get_flag f_center (flag_word s) \<or> (\<not> tracking_started s \<and> any_nonzero (newpose s)
          \<and> center_at_startup (settings e))) \<and> pFilter (libs e) \<noteq> None then 1 else 0)"
  "nan_once (snd (snd (logic_filtered e own v s))) = (nan_once s \<or> fst (logic_filtered e own v s))"
  "qdebug (snd (snd (logic_filtered e own v s))) =
     (if fst (logic_filtered e own v s) \<and> \<not> nan_once s then qdebug s @ [(''value'', 451)]
      else qdebug s)"
  unfolding logic_filtered_state Let_def
  by (auto simp add: emit_fields set_center_pose_fields enable_fields enable_flags)

lemma logic_mapped_fields:
  "output_pose (snd (snd (logic_mapped e v d s))) = output_pose s"
  "raw_6dof (snd (snd (logic_mapped e v d s))) = raw_6dof s"
  "newpose (snd (snd (logic_mapped e v d s))) = newpose s"
  "tracking_started (snd (snd (logic_mapped e v d s))) = tracking_started s"
  "flag_word (snd (snd (logic_mapped e v d s))) = flag_word s"
  "center_captures (snd (snd (logic_mapped e v d s))) = center_captures s"
  "filter_center_calls (snd (snd (logic_mapped e v d s))) = filter_center_calls s"
  "nan_once (snd (snd (logic_mapped e v d s))) = (nan_once s \<or> fst (logic_mapped e v d s))"
  "qdebug (snd (snd (logic_mapped e v d s))) =
     (if fst (logic_mapped e v d s) \<and> \<not> nan_once s then qdebug s @ [(''value'', 468)]
      else qdebug s)"
  by (simp_all add: logic_mapped_def Let_def split_def maybe_nan_def emit_fields
      apply_reltrans_fields)

lemma logic_selected_fields:
  "output_pose (tick_state (logic_selected e own raw v d s)) = output_pose s"
  "raw_6dof (tick_state (logic_selected e own raw v d s)) = raw_6dof s"
  "newpose (tick_state (logic_selected e own raw v d s)) = newpose s"
  "tracking_started (tick_state (logic_selected e own raw v d s))
     = (tracking_started s \<or> any_nonzero (newpose s))"
  "get_flag F (flag_word (tick_state (logic_selected e own raw v d s))) =
     (if F = f_center \<and> \<not> tracking_started s \<and> any_nonzero (newpose s)
          \<and> center_at_startup (settings e)
      then True else get_flag F (flag_word s))"
  "center_captures (tick_state (logic_selected e own raw v d s)) =
     center_captures s +
       (if get_flag f_center (flag_word s) \<or> (\<not> tracking_started s \<and> any_nonzero (newpose s)
          \<and> center_at_startup (settings e)) then 1 else 0)"
  "filter_center_calls (tick_state (logic_selected e own raw v d s)) =
     filter_center_calls s +
       (if (get_flag f_center (flag_word s) \<or> (\<not> tracking_started s \<and> any_nonzero (newpose s)
          \<and> center_at_startup (settings e))) \<and> pFilter (libs e) \<noteq> None then 1 else 0)"
  "nan_once (tick_state (logic_selected e own raw v d s))
     = (nan_once s \<or> jumped (logic_selected e own raw v d s))"
  by (simp_all add: logic_selected_def Let_def split_def logic_filtered_fields
      logic_mapped_fields)

lemma logic_selected_qdebug:
  "\<exists>line. qdebug (tick_state (logic_selected e own raw v d s)) =
     (if jumped (logic_selected e own raw v d s) \<and> \<not> nan_once s
      then qdebug s @ [(''value'', line)] else qdebug s)"
  by (auto simp add: logic_selected_def Let_def split_def logic_filtered_fields
      logic_mapped_fields)

lemma logic_stages_eq:
  "\<exists>raw value disabled.
     logic_stages e s =
       Some (if fst (logic_raw e s) then Goto_nan (snd (logic_raw e s))
             else logic_selected e (own_center_logic e s) raw value disabled (snd (logic_raw e s)))"
proof -
  obtain raw val disabled where
    "get_selected_axis_value (mappings e) (newpose (snd (logic_raw e s))) = Some (raw, val, disabled)"
    using get_selected_axis_value_eq by blast
  then have "logic_stages e s =
       Some (if fst (logic_raw e s) then Goto_nan (snd (logic_raw e s))
             else logic_selected e (own_center_logic e s) raw val disabled (snd (logic_raw e s)))"
    by (simp add: logic_stages_def Let_def split_def)
  then show ?thesis by blast
qed


lemma zero_pos_channel_none: "zero (opts axis) = Fin 0 \<Longrightarrow> zero_pos_channel axis v = v"
  by (cases v) (simp_all add: zero_pos_channel_def double_of_int_def)

lemma apply_zero_pos_none:
  "\<forall>axis \<in> set_vec6 m. zero (opts axis) = Fin 0 \<Longrightarrow> apply_zero_pos m v = v"
  by (cases m; cases v) (simp add: apply_zero_pos_def zero_pos_channel_none)

lemma logic_ok_fields:
  "get_flag F (flag_word (logic_ok e s v r)) = (F \<noteq> f_center \<and> get_flag F (flag_word s))"
  "raw_6dof (logic_ok e s v r) = r"
  "output_pose (logic_ok e s v r) =
     ev_finished (ev e)
       (apply_zero_pos (mappings e) (if get_flag f_zero (flag_word s) then zero_pose else v))"
  "protocol_pose (logic_ok e s v r) = output_pose (logic_ok e s v r)"
  "tracking_started (logic_ok e s v r) = tracking_started s"
  "newpose (logic_ok e s v r) = newpose s"
  "center_captures (logic_ok e s v r) = center_captures s"
  "filter_center_calls (logic_ok e s v r) = filter_center_calls s"
  "nan_once (logic_ok e s v r) = nan_once s"
  "qdebug (logic_ok e s v r) = qdebug s"
  by (simp_all add: logic_ok_def Let_def get_set_flag)

lemma logic_tick:
  "\<exists>s'. logic e s = Some s'
     \<and> \<not> get_flag f_center (flag_word s')
     \<and> (\<forall>F. F \<noteq> f_center \<longrightarrow> get_flag F (flag_word s') = get_flag F (flag_word s))
     \<and> newpose s' = newpose (snd (logic_raw e s))
     \<and> tracking_started s'
         = (tracking_started s \<or> (\<not> fst (logic_raw e s) \<and> any_nonzero (newpose s')))
     \<and> center_captures s' = center_captures s +
         (if \<not> fst (logic_raw e s) \<and> (get_flag f_center (flag_word s)
              \<or> (\<not> tracking_started s \<and> any_nonzero (newpose s')
                  \<and> center_at_startup (settings e))) then 1 else 0)
     \<and> filter_center_calls s' = filter_center_calls s +
         (if \<not> fst (logic_raw e s) \<and> (get_flag f_center (flag_word s)
              \<or> (\<not> tracking_started s \<and> any_nonzero (newpose s')
                  \<and> center_at_startup (settings e))) \<and> pFilter (libs e) \<noteq> None then 1 else 0)
     \<and> nan_once s' = (nan_once s \<or> nan_detected e s)
     \<and> (\<exists>text line. qdebug s' =
           (if nan_detected e s \<and> \<not> nan_once s then qdebug s @ [(text, line)] else qdebug s))
     \<and> (nan_detected e s \<longrightarrow> raw_6dof s' = raw_6dof s
           \<and> output_pose s' = ev_finished (ev e) (apply_zero_pos (mappings e)
                (if get_flag f_zero (flag_word s) then zero_pose else output_pose s)))"
proof -
  obtain raw val disabled where st: "logic_stages e s =
       Some (if fst (logic_raw e s) then Goto_nan (snd (logic_raw e s))
             else logic_selected e (own_center_logic e s) raw val disabled (snd (logic_raw e s)))"
    using logic_stages_eq by blast
  show ?thesis
  proof (cases "fst (logic_raw e s)")
    case True
    then have l: "logic e s = Some (logic_nan e (snd (logic_raw e s)))"
      and n: "nan_detected e s"
      by (simp_all add: logic_def nan_detected_def st)
    from True have nan: "is_nan (data (pTracker (libs e)))"
      by (simp add: logic_raw_fst)
    show ?thesis
      unfolding l
      by (rule exI [of _ "logic_nan e (snd (logic_raw e s))"])
        (auto simp add: logic_nan_def logic_ok_fields logic_raw_fields logic_raw_msgs True n nan)
  next
    case False
    define t where "t = logic_selected e (own_center_logic e s) raw val disabled (snd (logic_raw e s))"
    have nan: "\<not> is_nan (data (pTracker (libs e)))"
      using False by (simp add: logic_raw_fst)
    have n: "nan_detected e s = jumped t"
      using False by (simp add: nan_detected_def st t_def)
    obtain line where q: "qdebug (tick_state t) =
       (if jumped t \<and> \<not> nan_once (snd (logic_raw e s))
        then qdebug (snd (logic_raw e s)) @ [(''value'', line)] else qdebug (snd (logic_raw e s)))"
      unfolding t_def using logic_selected_qdebug by blast
    show ?thesis
    proof (cases t)
      case (Goto_nan s1)
      then have l: "logic e s = Some (logic_nan e (tick_state t))"
        using False by (simp add: logic_def st t_def [symmetric])
      have j: "jumped t" using Goto_nan by simp
      show ?thesis
        unfolding l n
        apply (rule exI [of _ "logic_nan e (tick_state t)"])
        apply (simp add: logic_nan_def logic_ok_fields q j)
        apply (simp add: t_def logic_selected_fields logic_raw_fields logic_raw_msgs nan False)
        apply (auto simp add: t_def [symmetric] j)
        done
    next
      case (Goto_ok s1 v r)
      then have l: "logic e s = Some (logic_ok e (tick_state t) v r)"
        using False by (simp add: logic_def st t_def [symmetric])
      have j: "\<not> jumped t" using Goto_ok by simp
      show ?thesis
        unfolding l n
        apply (rule exI [of _ "logic_ok e (tick_state t) v r"])
        apply (simp add: logic_ok_fields q j)
        apply (simp add: t_def logic_selected_fields logic_raw_fields logic_raw_msgs nan False)
        apply (auto simp add: t_def [symmetric] j)
        done
    qed
  qed
qed


lemma nan_detected_raw: "is_nan (data (pTracker (libs e))) \<Longrightarrow> nan_detected e s"
  using logic_stages_eq [of e s] by (auto simp add: nan_detected_def logic_raw_fst)

lemma logic_total: "\<exists>s'. logic e s = Some s'"
  using logic_tick [of e s] by blast

lemma ticks_total: "\<exists>s'. ticks es s = Some s'"
proof (induction es arbitrary: s)
  case Nil
  show ?case by simp
next
  case (Cons e es)
  obtain s1 where "logic e s = Some s1" using logic_total by blast
  then show ?case using Cons [of s1] by simp
qed

text \<open>Consecutive ticks that all jump to \<open>nan\<close>.\<close>

lemma nan_ticks_run:
  assumes "nan_ticks es s"
  shows "\<exists>s'. ticks es s = Some s'
     \<and> raw_6dof s' = raw_6dof s
     \<and> get_flag f_zero (flag_word s') = get_flag f_zero (flag_word s)
     \<and> (\<not> get_flag f_zero (flag_word s)
          \<and> (\<forall>e \<in> set es. (\<forall>axis \<in> set_vec6 (mappings e). zero (opts axis) = Fin 0)
                \<and> ev_finished (ev e) (output_pose s) = output_pose s)
          \<longrightarrow> output_pose s' = output_pose s)
     \<and> nan_once s' = (nan_once s \<or> es \<noteq> [])
     \<and> length (qdebug s') = length (qdebug s) + (if nan_once s \<or> es = [] then 0 else 1)
     \<and> (nan_once s \<longrightarrow> qdebug s' = qdebug s)
     \<and> (\<not> nan_once s \<and> es \<noteq> [] \<longrightarrow> (\<exists>m. qdebug s' = qdebug s @ [m]))"
  using assms
proof (induction es arbitrary: s)
  case Nil
  show ?case by simp
next
  case (Cons e es)
  from Cons.prems have n: "nan_detected e s" by simp
  obtain s1 msg line where s1: "logic e s = Some s1"
    and z: "get_flag f_zero (flag_word s1) = get_flag f_zero (flag_word s)"
    and once: "nan_once s1"
    and q: "qdebug s1 = (if \<not> nan_once s then qdebug s @ [(msg, line)] else qdebug s)"
    and raw: "raw_6dof s1 = raw_6dof s"
    and out: "output_pose s1 = ev_finished (ev e) (apply_zero_pos (mappings e)
                (if get_flag f_zero (flag_word s) then zero_pose else output_pose s))"
    using logic_tick [of e s] n by auto
  from Cons.prems s1 have rest: "nan_ticks es s1" by simp
  obtain s' where s': "ticks es s1 = Some s'"
    and raw': "raw_6dof s' = raw_6dof s1"
    and z': "get_flag f_zero (flag_word s') = get_flag f_zero (flag_word s1)"
    and out': "\<not> get_flag f_zero (flag_word s1)
          \<and> (\<forall>e \<in> set es. (\<forall>axis \<in> set_vec6 (mappings e). zero (opts axis) = Fin 0)
                \<and> ev_finished (ev e) (output_pose s1) = output_pose s1)
          \<longrightarrow> output_pose s' = output_pose s1"
    and q': "qdebug s' = qdebug s1"
    and once': "nan_once s'"
    using Cons.IH [OF rest] once by auto
  have keep: "output_pose s1 = output_pose s"
    if "\<not> get_flag f_zero (flag_word s)"
      and "\<forall>axis \<in> set_vec6 (mappings e). zero (opts axis) = Fin 0"
      and "ev_finished (ev e) (output_pose s) = output_pose s"
    using that by (simp add: out apply_zero_pos_none)
  show ?case
    using s1 s' raw raw' z z' q q' once' out' keep by (auto simp add: s1)
qed


lemma nan_ticks_raw_all:
  "(\<forall>e \<in> set es. is_nan (data (pTracker (libs e)))) \<longrightarrow> (\<forall>s. nan_ticks es s)"
proof (induction es)
  case Nil
  show ?case by simp
next
  case (Cons e es)
  show ?case
  proof (intro impI allI)
    fix s
    assume a: "\<forall>e \<in> set (e # es). is_nan (data (pTracker (libs e)))"
    obtain s1 where s1: "logic e s = Some s1" using logic_total by blast
    have "nan_detected e s" using a by (simp add: nan_detected_raw)
    moreover have "nan_ticks es s1" using Cons a by simp
    ultimately show "nan_ticks (e # es) s" by (simp add: s1)
  qed
qed

lemma nan_ticks_raw:
  "\<forall>e \<in> set es. is_nan (data (pTracker (libs e))) \<Longrightarrow> nan_ticks es s"
  using nan_ticks_raw_all by blast

text \<open>
  C1, as the code has it. Take one or more consecutive ticks that all jump to \<open>nan\<close>, at
  whichever of the three checks. Every tick returns, and after the run the raw snapshot
  is the one before it. The published output is the one before the run when the zero flag
  is clear, every axis has the zero offset 0 and the hook \<open>ev_finished\<close> returns that pose
  unchanged (the code after \<open>ok\<close> runs on the substituted pose too). The ``nan check
  failed'' message is written at most once in the life of the process: no message during
  the run when one was written before, exactly one otherwise.
\<close>

theorem nan_ticks_fallback:
  assumes "es \<noteq> []" and "nan_ticks es s"
  shows "\<exists>s'. ticks es s = Some s'
     \<and> raw_6dof s' = raw_6dof s
     \<and> (\<not> get_flag f_zero (flag_word s)
          \<and> (\<forall>e \<in> set es. (\<forall>axis \<in> set_vec6 (mappings e). zero (opts axis) = Fin 0)
                \<and> ev_finished (ev e) (output_pose s) = output_pose s)
          \<longrightarrow> output_pose s' = output_pose s)
     \<and> (nan_once s \<longrightarrow> qdebug s' = qdebug s)
     \<and> (\<not> nan_once s \<longrightarrow> (\<exists>m. qdebug s' = qdebug s @ [m]))"
  using nan_ticks_run [OF assms(2)] assms(1) by auto

text \<open>Two NaN samples in a row, in the middle of a session.\<close>

theorem nan_ticks_fallback_witness:
  "nan_ticks [sample_nan_env, sample_nan_env] sample_running
   \<and> (\<exists>s'. ticks [sample_nan_env, sample_nan_env] sample_running = Some s'
         \<and> raw_6dof s' = Vec6 (Fin 1) (Fin 2) (Fin 3) (Fin 10) (Fin 20) (Fin 30)
         \<and> output_pose s' = Vec6 (Fin 1) (Fin 2) (Fin 3) (Fin 4) (Fin 5) (Fin 6)
         \<and> length (qdebug s') = 1)"
proof -
  have n: "nan_ticks [sample_nan_env, sample_nan_env] sample_running"
    by (rule nan_ticks_raw) (simp add: sample_nan_env_def sample_env_of_def is_nan_def)
  have z: "\<not> get_flag f_zero (flag_word sample_running)"
    by (simp add: sample_running_def get_set_flag bits_init_flags)
  have m: "\<forall>e \<in> set [sample_nan_env, sample_nan_env].
       (\<forall>axis \<in> set_vec6 (mappings e). zero (opts axis) = Fin 0)
       \<and> ev_finished (ev e) (output_pose sample_running) = output_pose sample_running"
    by (simp add: sample_nan_env_def sample_env_of_def sample_axis_def)
  have o: "\<not> nan_once sample_running" "qdebug sample_running = []"
    "output_pose sample_running = Vec6 (Fin 1) (Fin 2) (Fin 3) (Fin 4) (Fin 5) (Fin 6)"
    "raw_6dof sample_running = Vec6 (Fin 1) (Fin 2) (Fin 3) (Fin 10) (Fin 20) (Fin 30)"
    by (simp_all add: sample_running_def sample_pipeline_def)
  show ?thesis
    using n z m nan_ticks_fallback [of "[sample_nan_env, sample_nan_env]" sample_running]
    by (auto simp add: o)
qed

text \<open>
  C1 as the claim states it fails when \<open>set_zero(true)\<close> is called between two ticks: the
  last tick published \<open>(1, 2, 3, 4, 5, 6)\<close>, the tracker then delivers a NaN, the jump
  to \<open>nan\<close> restores that pose into \<open>value\<close>, and the code after \<open>ok\<close> overwrites it with
  zeros because \<open>f_zero\<close> is set. The published pose is the zero pose.
\<close>

theorem nan_tick_zero_flag_counterexample:
  "nan_detected sample_nan_env (set_zero True sample_running)
   \<and> output_pose (set_zero True sample_running) = Vec6 (Fin 1) (Fin 2) (Fin 3) (Fin 4) (Fin 5) (Fin 6)
   \<and> map_option output_pose (logic sample_nan_env (set_zero True sample_running))
       = Some (Vec6 (Fin 0) (Fin 0) (Fin 0) (Fin 0) (Fin 0) (Fin 0))"
  by code_simp

text \<open>
  With a nonzero zero offset the code after \<open>ok\<close> adds the offset once more to the pose
  that already carries it: the last tick published \<open>(1, 2, 3, 4, 5, 6)\<close>, the offset of the
  first axis is 1, and the NaN tick publishes \<open>(2, 2, 3, 4, 5, 6)\<close>.
\<close>

lemma nan_tick_adds_zero_offset_again:
  "nan_detected sample_offset_nan_env sample_running
   \<and> output_pose sample_running = Vec6 (Fin 1) (Fin 2) (Fin 3) (Fin 4) (Fin 5) (Fin 6)
   \<and> map_option output_pose (logic sample_offset_nan_env sample_running)
       = Some (Vec6 (Fin 2) (Fin 2) (Fin 3) (Fin 4) (Fin 5) (Fin 6))"
  by code_simp







text \<open>
  C9, as the code has it. The center flag is true after construction. In every tick:
  the latch \<open>tracking_started\<close> is true afterwards exactly when it was true before or the
  tick passed the check of the raw sample and some channel of the stored sample
  \<open>newpose\<close> is nonzero; while the latch is false \<open>own_center_logic\<close> is false, so the
  tracker's own centering is not used; but the latch does not gate the capture: when
  the raw sample passes its check and the center flag is set, the center pose is stored
  and the filter's \<open>center()\<close> is called (if there is a filter), whatever the latch. With
  the flag clear, the capture happens only as the automatic centering of the tick in
  which the latch turns true.
\<close>

theorem tracking_latch:
  "get_flag f_center bits_init
   \<and> (\<exists>s'. logic e s = Some s'
        \<and> (tracking_started s' \<longleftrightarrow>
             tracking_started s
             \<or> (\<not> is_nan (data (pTracker (libs e))) \<and> any_nonzero (newpose s')))
        \<and> (\<not> tracking_started s \<longrightarrow> \<not> own_center_logic e s)
        \<and> (\<not> is_nan (data (pTracker (libs e))) \<and> get_flag f_center (flag_word s) \<longrightarrow>
             center_captures s' = center_captures s + 1
             \<and> filter_center_calls s'
                 = filter_center_calls s + (if pFilter (libs e) = None then 0 else 1))
        \<and> (\<not> get_flag f_center (flag_word s)
             \<and> \<not> (\<not> tracking_started s \<and> tracking_started s' \<and> center_at_startup (settings e))
             \<longrightarrow> center_captures s' = center_captures s
                 \<and> filter_center_calls s' = filter_center_calls s))"
  using logic_tick [of e s]
  by (auto simp add: bits_init_flags logic_raw_fst own_center_logic_def center_ordered_def
      split: if_splits)

text \<open>
  The first tick after construction with an all-zero sample, and a tick in the middle
  of a session with no request pending.
\<close>

theorem tracking_latch_witness:
  "\<not> tracking_started sample_pipeline
   \<and> \<not> is_nan (data (pTracker (libs sample_still_env)))
   \<and> get_flag f_center (flag_word sample_pipeline)
   \<and> (\<exists>s'. logic sample_still_env sample_pipeline = Some s'
         \<and> \<not> own_center_logic sample_still_env sample_pipeline
         \<and> center_captures s' = 1 \<and> filter_center_calls s' = 1)
   \<and> \<not> get_flag f_center (flag_word sample_running) \<and> tracking_started sample_running
   \<and> (\<exists>s'. logic sample_env sample_running = Some s'
         \<and> center_captures s' = 0 \<and> filter_center_calls s' = 0)"
proof -
  have a: "\<not> tracking_started sample_pipeline" "get_flag f_center (flag_word sample_pipeline)"
    "center_captures sample_pipeline = 0" "filter_center_calls sample_pipeline = 0"
    by (simp_all add: sample_pipeline_def bits_init_flags)
  have b: "\<not> is_nan (data (pTracker (libs sample_still_env)))"
    "pFilter (libs sample_still_env) \<noteq> None"
    by (simp_all add: sample_still_env_def sample_env_of_def is_nan_def zero_pose_def)
  have c: "\<not> get_flag f_center (flag_word sample_running)" "tracking_started sample_running"
    "center_captures sample_running = 0" "filter_center_calls sample_running = 0"
    by (simp_all add: sample_running_def sample_pipeline_def get_set_flag)
  show ?thesis
    using a b c tracking_latch [of sample_still_env sample_pipeline]
      tracking_latch [of sample_env sample_running]
    by auto
qed

text \<open>
  C9 as the claim states it fails at the first tick after construction: the stored
  sample and the tracker's sample are all zero, the latch stays false, and yet the
  center pose is stored once and the filter's \<open>center()\<close> is called once.
\<close>

theorem latch_capture_counterexample:
  "newpose sample_pipeline = zero_pose
   \<and> data (pTracker (libs sample_still_env)) = zero_pose
   \<and> map_option (\<lambda>s. (tracking_started s, newpose s, center_captures s, filter_center_calls s))
        (logic sample_still_env sample_pipeline) = Some (False, zero_pose, 1, 1)"
  by code_simp


text \<open>The loop of \<open>run\<close> never stops on its own, and every sleep it asks for is 0 to 10 ms.\<close>

lemma run_loop_sleeps:
  "\<exists>s' c' new. run_loop rounds (s, c) = Some (s', c') \<and> slept c' = slept c @ new
     \<and> length new = length rounds \<and> (\<forall>t \<in> set new. 0 \<le> t \<and> t \<le> 10)"
proof (induction rounds arbitrary: s c)
  case Nil
  show ?case by simp
next
  case (Cons r rounds)
  obtain e elapsed where r: "r = (e, elapsed)" by (cases r)
  obtain s1 where s1: "logic e s = Some s1" using logic_total by blast
  let ?c = "run_timing elapsed c"
  have c1: "slept ?c = slept c @ [sleep_time_ms (backlog_time ?c)]"
    by (simp add: run_timing_def reset_backlog_def Let_def)
  obtain s' c' new where
    "run_loop rounds (s1, ?c) = Some (s', c')" "slept c' = slept ?c @ new"
    "length new = length rounds" "\<forall>t \<in> set new. 0 \<le> t \<and> t \<le> 10"
    using Cons [of s1 ?c] by blast
  then show ?case
    using sleep_time_ms_bounds [of "backlog_time ?c"]
    by (intro exI [of _ s'] exI [of _ c'] exI [of _ "sleep_time_ms (backlog_time ?c) # new"])
      (simp add: r s1 c1)
qed

end
